(* ===== verification/Prelude.thy ===== *)
theory Prelude
  imports Main "HOL-Library.Sublist"
begin

text \<open>
  Shared vocabulary of the development: the collections of rewrite rules the component
  theories fill and use, the names of the model's basic types, and generic facts on
  lists and subsequences that several components need. JavaScript strings are modelled
  as \<open>char list\<close>; the newline character that separates the lines of the choices text
  area is \<open>NL\<close>.
\<close>

named_theorems handler_simps "evaluation rules of the form controller's handlers"

type_synonym js_string = "char list"

abbreviation NL :: char where
  "NL \<equiv> CHR 0x0A"

subsection \<open>Conditional list pieces\<close>

text \<open>
  The code builds lists by pushing an element when a condition holds
  (\<open>if (c) errors.push(m)\<close>); in the model such a piece is
  \<open>if c then [m] else []\<close>. These facts let the simplifier reason about them.
\<close>

lemma set_if_singleton [simp]:
  "set (if P then [x] else []) = (if P then {x} else {})"
  by (cases P) simp_all

lemma subseq_if_singleton_append:
  "subseq xs ys \<Longrightarrow> subseq ((if P then [x] else []) @ xs) (x # ys)"
  by (cases P) (auto intro: list_emb.intros)

lemma length_if_singleton [simp]:
  "length (if P then [x] else []) = (if P then 1 else 0)"
  by (cases P) simp_all

lemma subseq_distinct:
  "subseq xs ys \<Longrightarrow> distinct ys \<Longrightarrow> distinct xs"
  by (induction xs ys rule: list_emb.induct) (auto dest: list_emb_set)

lemma filter_member_subseq:
  "subseq xs ys \<Longrightarrow> distinct ys \<Longrightarrow> filter (\<lambda>m. m \<in> set xs) ys = xs"
proof (induction xs ys rule: list_emb.induct)
  case (list_emb_Nil ys)
  then show ?case by simp
next
  case (list_emb_Cons xs ys y)
  then have "y \<notin> set xs" by (auto dest: list_emb_set)
  with list_emb_Cons show ?case by simp
next
  case (list_emb_Cons2 x y xs ys)
  then have "filter (\<lambda>m. m \<in> set (x # xs)) ys = filter (\<lambda>m. m \<in> set xs) ys"
    by (intro filter_cong) auto
  with list_emb_Cons2 show ?case by simp
qed

subsection \<open>Counting\<close>

lemma count_list_append_Cons [simp]:
  "count_list (xs @ y # ys) z = count_list xs z + (if y = z then 1 else 0) + count_list ys z"
  by (induction xs) auto

end
