(* ===== verification/JsString.thy ===== *)
theory JsString
  imports Prelude
begin

text \<open>
  The JavaScript built-ins the form controller calls on its strings and lists, as far as
  the controller uses them: \<open>String.prototype.split\<close> with a one-character separator
  (\<open>choices.split('\n')\<close>), \<open>Array.prototype.join\<close> with one
  (\<open>defaultData.choices.join('\n')\<close>), \<open>String.prototype.includes\<close>
  (\<open>choices.includes(defaultValue)\<close>) and the size of a \<open>Set\<close> built from a list
  (\<open>new Set(choiceList).size\<close>). Each is an executable recursive function; the lemmas
  relate them to the library's notions (\<open>sublist\<close>, \<open>distinct\<close>) and
  prove that splitting a joined array of separator-free pieces gives it back.
\<close>

subsection \<open>Definitions\<close>

text \<open>\<open>s.split(sep)\<close>: the pieces between separators, empty pieces kept; the empty
  string splits into one empty piece.\<close>

fun js_split :: "char \<Rightarrow> js_string \<Rightarrow> js_string list" where
  "js_split sep [] = [[]]"
| "js_split sep (c # cs) =
     (let ws = js_split sep cs in if c = sep then [] # ws else (c # hd ws) # tl ws)"

text \<open>\<open>xs.join(sep)\<close>: the empty array joins to the empty string.\<close>

fun js_join :: "char \<Rightarrow> js_string list \<Rightarrow> js_string" where
  "js_join sep [] = []"
| "js_join sep [w] = w"
| "js_join sep (w # ws) = w @ sep # js_join sep ws"

text \<open>\<open>s.startsWith(t)\<close>, the test \<open>includes\<close> repeats at every position.\<close>

fun starts_with :: "js_string \<Rightarrow> js_string \<Rightarrow> bool" where
  "starts_with s [] = True"
| "starts_with [] (c # t) = False"
| "starts_with (d # s) (c # t) = (d = c \<and> starts_with s t)"

text \<open>\<open>s.includes(t)\<close>: \<open>t\<close> occurs at some position of \<open>s\<close> (every string
  includes the empty string).\<close>

fun js_includes :: "js_string \<Rightarrow> js_string \<Rightarrow> bool" where
  "js_includes [] t = (t = [])"
| "js_includes (c # s) t = (starts_with (c # s) t \<or> js_includes s t)"

text \<open>\<open>new Set(xs).size\<close>: a \<open>Set\<close> keeps the first occurrence of each element.\<close>

definition js_set_size :: "'a list \<Rightarrow> nat" where
  "js_set_size xs = length (remdups xs)"

subsection \<open>Splitting\<close>

lemma js_split_not_Nil [simp]: "js_split sep s \<noteq> []"
  by (induction s) (auto simp: Let_def)

lemma js_split_Cons_sep [simp]:
  "js_split sep (sep # cs) = [] # js_split sep cs"
  by simp

lemma js_split_Cons_other:
  "c \<noteq> sep \<Longrightarrow> js_split sep (c # cs) = (c # hd (js_split sep cs)) # tl (js_split sep cs)"
  by (simp add: Let_def)

lemma js_split_no_sep: "sep \<notin> set s \<Longrightarrow> js_split sep s = [s]"
  by (induction s) auto

lemma js_split_append:
  "js_split sep (a @ b) =
     butlast (js_split sep a) @ (last (js_split sep a) @ hd (js_split sep b)) # tl (js_split sep b)"
proof (induction a)
  case Nil
  then show ?case by simp
next
  case (Cons c a)
  then show ?case
    by (cases "js_split sep a") (auto simp: Let_def)
qed

lemma js_split_append_sep:
  "js_split sep (a @ sep # b) = js_split sep a @ js_split sep b"
proof -
  have "js_split sep (sep # b) = [] # js_split sep b" by simp
  then show ?thesis
    by (simp add: js_split_append [of sep a "sep # b"] append_butlast_last_id)
qed

lemma length_js_split: "length (js_split sep s) = Suc (count_list s sep)"
proof (induction s)
  case Nil
  then show ?case by simp
next
  case (Cons c s)
  then show ?case
    by (cases "js_split sep s") (auto simp: Let_def)
qed

lemma js_split_hd_prefix: "prefix (hd (js_split sep s)) s"
  by (induction s) (auto simp: Let_def)

lemma js_split_sublist: "w \<in> set (js_split sep s) \<Longrightarrow> sublist w s"
proof (induction s arbitrary: w)
  case Nil
  then show ?case by simp
next
  case (Cons c s)
  show ?case
  proof (cases "c = sep")
    case True
    with Cons show ?thesis by (auto intro: sublist_Cons_right [THEN iffD2])
  next
    case False
    have ne: "js_split sep s \<noteq> []" by simp
    from Cons.prems False
    have "w = c # hd (js_split sep s) \<or> w \<in> set (tl (js_split sep s))"
      by (simp add: Let_def)
    then show ?thesis
    proof
      assume "w = c # hd (js_split sep s)"
      then have "prefix w (c # s)" using js_split_hd_prefix [of sep s] by simp
      then show ?thesis by (rule prefix_imp_sublist)
    next
      assume "w \<in> set (tl (js_split sep s))"
      then have "w \<in> set (js_split sep s)" using ne by (cases "js_split sep s") auto
      then show ?thesis using Cons.IH by (auto intro: sublist_Cons_right [THEN iffD2])
    qed
  qed
qed

subsection \<open>Splitting a joined array\<close>

text \<open>Splitting a joined non-empty array of separator-free pieces gives the array back.\<close>

theorem js_split_join:
  "xs \<noteq> [] \<Longrightarrow> \<forall>w \<in> set xs. sep \<notin> set w \<Longrightarrow> js_split sep (js_join sep xs) = xs"
proof (induction xs rule: js_join.induct)
  case (2 sep w)
  then show ?case by (simp add: js_split_no_sep)
next
  case (3 sep w v vs)
  then have "js_split sep (js_join sep (v # vs)) = v # vs" by simp
  moreover have "js_split sep w = [w]" using "3.prems" by (simp add: js_split_no_sep)
  ultimately show ?case by (simp add: js_split_append_sep)
qed simp

subsection \<open>Substring search\<close>

lemma starts_with_prefix [simp]: "starts_with s t \<longleftrightarrow> prefix t s"
  by (induction s t rule: starts_with.induct) auto

text \<open>The recursive search of \<open>includes\<close> decides the library's contiguous-sublist
  relation.\<close>

theorem js_includes_sublist: "js_includes s t \<longleftrightarrow> sublist t s"
proof (induction s)
  case Nil
  then show ?case by simp
next
  case (Cons c s)
  then show ?case by (auto simp: sublist_Cons_right)
qed

subsection \<open>Set size\<close>

lemma js_set_size_distinct: "js_set_size xs = length xs \<longleftrightarrow> distinct xs"
  by (simp add: js_set_size_def length_remdups_eq distinct_remdups_id)

end
