(* ===== verification/Validation.thy ===== *)
theory Validation
  imports JsString
begin

text \<open>
  The validation rules of the form (\<open>validateForm\<close> in
  \<open>src/src/components/FieldBuilderForm.js\<close>): the three messages, the limit on the
  number of choices and the list of failing messages computed from the label and the
  choices text. The rules are evaluated independently and pushed in the code's order.
  The lemmas characterise each message exactly, show that the result lists each message
  at most once and in that order, and relate the limit on lines to the number of
  newlines in the text.
\<close>

definition msg_label_required :: js_string where
  "msg_label_required = ''Label is required.''"

definition msg_duplicate_choices :: js_string where
  "msg_duplicate_choices = ''Duplicate choices are not allowed.''"

definition msg_too_many_choices :: js_string where
  "msg_too_many_choices = ''There cannot be more than 50 choices.''"

definition max_choices :: nat where
  "max_choices = 50"

text \<open>The failing messages for a label and a choices text: the label is falsy
  (\<open>!label\<close>, the empty string), the lines of the text contain a repeated entry
  (\<open>new Set(choiceList).size !== choiceList.length\<close>), or there are more than fifty
  lines. Empty lines are kept by \<open>split\<close> and count as choices.\<close>

definition validate_errors :: "js_string \<Rightarrow> js_string \<Rightarrow> js_string list" where
  "validate_errors lbl chs =
     (let choiceList = js_split NL chs in
      (if lbl = [] then [msg_label_required] else [])
      @ (if js_set_size choiceList \<noteq> length choiceList then [msg_duplicate_choices] else [])
      @ (if length choiceList > max_choices then [msg_too_many_choices] else []))"

lemmas validation_msgs = msg_label_required_def msg_duplicate_choices_def msg_too_many_choices_def

lemma validation_msgs_distinct [simp]:
  "msg_label_required \<noteq> msg_duplicate_choices"
  "msg_label_required \<noteq> msg_too_many_choices"
  "msg_duplicate_choices \<noteq> msg_too_many_choices"
  "msg_duplicate_choices \<noteq> msg_label_required"
  "msg_too_many_choices \<noteq> msg_label_required"
  "msg_too_many_choices \<noteq> msg_duplicate_choices"
  by (simp_all add: validation_msgs)

lemma set_validate_errors:
  "set (validate_errors lbl chs) =
     (if lbl = [] then {msg_label_required} else {})
     \<union> (if distinct (js_split NL chs) then {} else {msg_duplicate_choices})
     \<union> (if max_choices < length (js_split NL chs) then {msg_too_many_choices} else {})"
  by (auto simp: validate_errors_def Let_def js_set_size_distinct)

subsection \<open>Each rule, exactly\<close>

text \<open>C8. The label message is reported exactly when the label is the empty string.\<close>

theorem validate_label_required_iff:
  "msg_label_required \<in> set (validate_errors lbl chs) \<longleftrightarrow> lbl = []"
  by (simp add: validate_errors_def Let_def)

text \<open>C9. The duplicate message is reported exactly when two lines of the choices text are
  equal (exact, case-sensitive comparison; empty lines included).\<close>

theorem validate_duplicate_iff:
  "msg_duplicate_choices \<in> set (validate_errors lbl chs) \<longleftrightarrow> \<not> distinct (js_split NL chs)"
  by (simp add: validate_errors_def Let_def js_set_size_distinct)

text \<open>C10. The limit message is reported exactly when the text has more than fifty lines,
  that is, at least fifty newline characters.\<close>

theorem validate_too_many_iff:
  "msg_too_many_choices \<in> set (validate_errors lbl chs) \<longleftrightarrow> 50 < length (js_split NL chs)"
  by (simp add: validate_errors_def Let_def max_choices_def)

lemma too_many_lines_iff_newlines:
  "max_choices < length (js_split NL chs) \<longleftrightarrow> max_choices \<le> count_list chs NL"
  by (simp add: length_js_split less_Suc_eq_le)

text \<open>The result lists the failing messages in the code's order, each at most once.\<close>

lemma validate_errors_subseq:
  "subseq (validate_errors lbl chs) [msg_label_required, msg_duplicate_choices, msg_too_many_choices]"
  unfolding validate_errors_def Let_def
  by (intro subseq_if_singleton_append) (simp add: list_emb_Nil)

lemma validate_errors_distinct: "distinct (validate_errors lbl chs)"
  by (simp add: validate_errors_def Let_def)

lemma validate_errors_Nil_iff:
  "validate_errors lbl chs = [] \<longleftrightarrow>
     lbl \<noteq> [] \<and> distinct (js_split NL chs) \<and> length (js_split NL chs) \<le> max_choices"
proof -
  have "validate_errors lbl chs = [] \<longleftrightarrow> set (validate_errors lbl chs) = {}" by simp
  then show ?thesis by (auto simp: set_validate_errors not_less)
qed

end
