(* ===== verification/Json.thy ===== *)
theory Json
  imports JsString
begin

text \<open>
  The JSON text format the program reads and writes: the draft kept in
  \<open>localStorage\<close> under the key \<open>formData\<close> is \<open>JSON.stringify\<close> of an object
  and is read back with \<open>JSON.parse\<close>; the body of the save request is
  \<open>JSON.stringify\<close> of the payload. Both built-ins are modelled from the JSON grammar
  (RFC 8259) and the serialisation rules of ECMA-262 (\<open>QuoteJSONString\<close>): values are
  \<open>null\<close>, Booleans, numbers, strings, arrays and objects. A number is kept as the text
  of its literal: the program never computes with one, and a number only reaches it in
  text it parses (a stored draft, a server response). Characters are 8-bit code units, so
  a \<open>\u\<close> escape above \<open>00ff\<close> is rejected by the model. The parser skips the
  whitespace the grammar allows and is given fuel: the top-level \<open>json_parse\<close> supplies
  one unit per input character, which \<open>JsonFuel\<close> proves enough. The main result is
  the round trip \<open>json_parse (json_stringify v) = Some v\<close> for the values the program
  writes, which hold no numbers.
\<close>

datatype json =
    JNull
  | JBool bool
  | JNumber js_string
  | JString js_string
  | JArray "json list"
  | JObject "(js_string \<times> json) list"

abbreviation DQ :: char where
  "DQ \<equiv> CHR 0x22"

abbreviation BSL :: char where
  "BSL \<equiv> CHR 0x5C"

subsection \<open>Serialisation\<close>

definition hex_digit :: "nat \<Rightarrow> char" where
  "hex_digit n = (if n < 10 then char_of (48 + n) else char_of (87 + n))"

text \<open>\<open>QuoteJSONString\<close>: the short escapes, \<open>\u00XX\<close> with lower-case hexadecimal
  digits for the other control characters, every other code unit as it is.\<close>

definition json_escape_char :: "char \<Rightarrow> js_string" where
  "json_escape_char c =
     (if c = CHR 0x08 then [BSL, CHR ''b'']
      else if c = CHR 0x09 then [BSL, CHR ''t'']
      else if c = NL then [BSL, CHR ''n'']
      else if c = CHR 0x0C then [BSL, CHR ''f'']
      else if c = CHR 0x0D then [BSL, CHR ''r'']
      else if c = DQ then [BSL, DQ]
      else if c = BSL then [BSL, BSL]
      else if of_char c < (32::nat)
        then [BSL, CHR ''u'', CHR ''0'', CHR ''0'',
              hex_digit (of_char c div 16), hex_digit (of_char c mod 16)]
      else [c])"

definition json_quote :: "js_string \<Rightarrow> js_string" where
  "json_quote s = DQ # concat (map json_escape_char s) @ [DQ]"

fun json_stringify :: "json \<Rightarrow> js_string"
  and json_stringify_elems :: "json list \<Rightarrow> js_string"
  and json_stringify_members :: "(js_string \<times> json) list \<Rightarrow> js_string" where
  "json_stringify JNull = ''null''"
| "json_stringify (JBool b) = (if b then ''true'' else ''false'')"
| "json_stringify (JNumber n) = n"
| "json_stringify (JString s) = json_quote s"
| "json_stringify (JArray vs) = CHR ''['' # json_stringify_elems vs @ [CHR '']'']"
| "json_stringify (JObject ms) = CHR ''{'' # json_stringify_members ms @ [CHR ''}'']"
| "json_stringify_elems [] = []"
| "json_stringify_elems [v] = json_stringify v"
| "json_stringify_elems (v # vs) = json_stringify v @ CHR '','' # json_stringify_elems vs"
| "json_stringify_members [] = []"
| "json_stringify_members [(k, v)] = json_quote k @ CHR '':'' # json_stringify v"
| "json_stringify_members ((k, v) # ms) =
     json_quote k @ CHR '':'' # json_stringify v @ CHR '','' # json_stringify_members ms"

subsection \<open>Parsing\<close>

definition is_json_ws :: "char \<Rightarrow> bool" where
  "is_json_ws c \<longleftrightarrow> c = CHR 0x20 \<or> c = CHR 0x09 \<or> c = NL \<or> c = CHR 0x0D"

fun skip_ws :: "js_string \<Rightarrow> js_string" where
  "skip_ws [] = []"
| "skip_ws (c # cs) = (if is_json_ws c then skip_ws cs else c # cs)"

definition hex_value :: "char \<Rightarrow> nat option" where
  "hex_value c =
     (let n = (of_char c :: nat) in
      if 48 \<le> n \<and> n \<le> 57 then Some (n - 48)
      else if 97 \<le> n \<and> n \<le> 102 then Some (n - 87)
      else if 65 \<le> n \<and> n \<le> 70 then Some (n - 55)
      else None)"

fun hex_acc :: "nat \<Rightarrow> js_string \<Rightarrow> nat option" where
  "hex_acc a [] = Some a"
| "hex_acc a (c # cs) = (case hex_value c of None \<Rightarrow> None | Some d \<Rightarrow> hex_acc (16 * a + d) cs)"

text \<open>The character denoted by a one-letter escape \<open>\e\<close>.\<close>

definition json_unescape :: "char \<Rightarrow> char option" where
  "json_unescape e =
     (if e = DQ then Some DQ
      else if e = BSL then Some BSL
      else if e = CHR ''/'' then Some (CHR ''/'')
      else if e = CHR ''b'' then Some (CHR 0x08)
      else if e = CHR ''f'' then Some (CHR 0x0C)
      else if e = CHR ''n'' then Some NL
      else if e = CHR ''r'' then Some (CHR 0x0D)
      else if e = CHR ''t'' then Some (CHR 0x09)
      else None)"

definition cons_parsed :: "'a \<Rightarrow> ('a list \<times> 'b) option \<Rightarrow> ('a list \<times> 'b) option" where
  "cons_parsed x r = map_option (\<lambda>(xs, rest). (x # xs, rest)) r"

text \<open>Number literals: an optional minus sign, an integer part without leading zeros,
  an optional fraction and an optional exponent. Each lexer returns the characters it
  read and the rest of the input; an optional part that is absent reads nothing.\<close>

definition is_digit :: "char \<Rightarrow> bool" where
  "is_digit c \<longleftrightarrow> 48 \<le> (of_char c :: nat) \<and> (of_char c :: nat) \<le> 57"

definition json_lex_digits :: "js_string \<Rightarrow> (js_string \<times> js_string) option" where
  "json_lex_digits s =
     (if takeWhile is_digit s = [] then None else Some (takeWhile is_digit s, dropWhile is_digit s))"

definition json_lex_int :: "js_string \<Rightarrow> (js_string \<times> js_string) option" where
  "json_lex_int s =
     (case s of
        [] \<Rightarrow> None
      | c # r \<Rightarrow> if c = CHR ''0'' then Some ([c], r)
                else if is_digit c then Some (c # takeWhile is_digit r, dropWhile is_digit r)
                else None)"

definition json_lex_frac :: "js_string \<Rightarrow> (js_string \<times> js_string) option" where
  "json_lex_frac s =
     (case s of
        c # r \<Rightarrow> if c = CHR ''.'' then map_option (\<lambda>(ds, r'). (c # ds, r')) (json_lex_digits r)
                else Some ([], s)
      | [] \<Rightarrow> Some ([], []))"

definition json_lex_exp :: "js_string \<Rightarrow> (js_string \<times> js_string) option" where
  "json_lex_exp s =
     (case s of
        c # r \<Rightarrow>
          if c = CHR ''e'' \<or> c = CHR ''E'' then
            (case r of
               d # r' \<Rightarrow> if d = CHR ''+'' \<or> d = CHR ''-''
                         then map_option (\<lambda>(ds, r''). (c # d # ds, r'')) (json_lex_digits r')
                         else map_option (\<lambda>(ds, r''). (c # ds, r'')) (json_lex_digits r)
             | [] \<Rightarrow> None)
          else Some ([], s)
      | [] \<Rightarrow> Some ([], []))"

definition json_lex_number :: "js_string \<Rightarrow> (js_string \<times> js_string) option" where
  "json_lex_number s =
     (let (sg, s1) = (case s of c # r \<Rightarrow> if c = CHR ''-'' then ([c], r) else ([], s) | [] \<Rightarrow> ([], []))
      in case json_lex_int s1 of
           None \<Rightarrow> None
         | Some (i, r1) \<Rightarrow>
             (case json_lex_frac r1 of
                None \<Rightarrow> None
              | Some (f, r2) \<Rightarrow>
                  (case json_lex_exp r2 of
                     None \<Rightarrow> None
                   | Some (e, r3) \<Rightarrow> Some (sg @ i @ f @ e, r3))))"

text \<open>The characters of a string literal after its opening quote, up to and without the
  closing quote; the rest of the input follows. Raw control characters are an error.\<close>

function json_parse_chars :: "js_string \<Rightarrow> (js_string \<times> js_string) option" where
  "json_parse_chars [] = None"
| "json_parse_chars (c # cs) =
     (if c = DQ then Some ([], cs)
      else if c = BSL then
        (case cs of
           [] \<Rightarrow> None
         | e # rest \<Rightarrow>
             if e = CHR ''u'' then
               (if 4 \<le> length rest then
                  (case hex_acc 0 (take 4 rest) of
                     Some n \<Rightarrow> if n < 256 then cons_parsed (char_of n) (json_parse_chars (drop 4 rest))
                               else None
                   | None \<Rightarrow> None)
                else None)
             else (case json_unescape e of
                     None \<Rightarrow> None
                   | Some d \<Rightarrow> cons_parsed d (json_parse_chars rest)))
      else if of_char c < (32::nat) then None
      else cons_parsed c (json_parse_chars cs))"
  by pat_completeness auto
termination
  by (relation "measure length") auto

fun json_parse_value :: "nat \<Rightarrow> js_string \<Rightarrow> (json \<times> js_string) option"
  and json_parse_elems :: "nat \<Rightarrow> js_string \<Rightarrow> (json list \<times> js_string) option"
  and json_parse_members :: "nat \<Rightarrow> js_string \<Rightarrow> ((js_string \<times> json) list \<times> js_string) option" where
  "json_parse_value 0 s = None"
| "json_parse_value (Suc n) s =
     (case skip_ws s of
        [] \<Rightarrow> None
      | c # r \<Rightarrow>
          if c = DQ then map_option (\<lambda>(str, r'). (JString str, r')) (json_parse_chars r)
          else if c = CHR ''['' then
            (let r1 = skip_ws r in
             if r1 \<noteq> [] \<and> hd r1 = CHR '']'' then Some (JArray [], tl r1)
             else map_option (\<lambda>(vs, r'). (JArray vs, r')) (json_parse_elems n r1))
          else if c = CHR ''{'' then
            (let r1 = skip_ws r in
             if r1 \<noteq> [] \<and> hd r1 = CHR ''}'' then Some (JObject [], tl r1)
             else map_option (\<lambda>(ms, r'). (JObject ms, r')) (json_parse_members n r1))
          else if starts_with (c # r) ''null'' then Some (JNull, drop 3 r)
          else if starts_with (c # r) ''true'' then Some (JBool True, drop 3 r)
          else if starts_with (c # r) ''false'' then Some (JBool False, drop 4 r)
          else if c = CHR ''-'' \<or> is_digit c
            then map_option (\<lambda>(l, r'). (JNumber l, r')) (json_lex_number (c # r))
          else None)"
| "json_parse_elems 0 s = None"
| "json_parse_elems (Suc n) s =
     (case json_parse_value n s of
        None \<Rightarrow> None
      | Some (v, r) \<Rightarrow>
          (case skip_ws r of
             [] \<Rightarrow> None
           | c # r' \<Rightarrow>
               if c = CHR '','' then cons_parsed v (json_parse_elems n r')
               else if c = CHR '']'' then Some ([v], r')
               else None))"
| "json_parse_members 0 s = None"
| "json_parse_members (Suc n) s =
     (case skip_ws s of
        [] \<Rightarrow> None
      | c # r \<Rightarrow>
          if c \<noteq> DQ then None
          else (case json_parse_chars r of
                  None \<Rightarrow> None
                | Some (k, r1) \<Rightarrow>
                    (case skip_ws r1 of
                       [] \<Rightarrow> None
                     | d # r2 \<Rightarrow>
                         if d \<noteq> CHR '':'' then None
                         else (case json_parse_value n r2 of
                                 None \<Rightarrow> None
                               | Some (v, r3) \<Rightarrow>
                                   (case skip_ws r3 of
                                      [] \<Rightarrow> None
                                    | e # r4 \<Rightarrow>
                                        if e = CHR '','' then cons_parsed (k, v) (json_parse_members n r4)
                                        else if e = CHR ''}'' then Some ([(k, v)], r4)
                                        else None)))))"

text \<open>\<open>JSON.parse\<close>: one value, surrounded by whitespace only; \<open>None\<close> is the
  \<open>SyntaxError\<close> the built-in throws.\<close>

definition json_parse :: "js_string \<Rightarrow> json option" where
  "json_parse s =
     (case json_parse_value (Suc (length s)) s of
        None \<Rightarrow> None
      | Some (v, r) \<Rightarrow> if skip_ws r = [] then Some v else None)"

text \<open>Property access \<open>obj.key\<close> on a parsed value: \<open>JSON.parse\<close> keeps the last of
  duplicate keys; \<open>None\<close> stands for \<open>undefined\<close>.\<close>

definition json_get :: "json \<Rightarrow> js_string \<Rightarrow> json option" where
  "json_get v k = (case v of JObject ms \<Rightarrow> map_of (rev ms) k | _ \<Rightarrow> None)"

text \<open>The values the program writes: no number anywhere inside.\<close>

fun json_no_numbers :: "json \<Rightarrow> bool"
  and json_no_numbers_elems :: "json list \<Rightarrow> bool"
  and json_no_numbers_members :: "(js_string \<times> json) list \<Rightarrow> bool" where
  "json_no_numbers (JNumber n) = False"
| "json_no_numbers (JArray vs) = json_no_numbers_elems vs"
| "json_no_numbers (JObject ms) = json_no_numbers_members ms"
| "json_no_numbers _ = True"
| "json_no_numbers_elems [] = True"
| "json_no_numbers_elems (v # vs) = (json_no_numbers v \<and> json_no_numbers_elems vs)"
| "json_no_numbers_members [] = True"
| "json_no_numbers_members ((k, v) # ms) = (json_no_numbers v \<and> json_no_numbers_members ms)"

subsection \<open>Round trip\<close>

lemma hex_value_hex_digit: "k < 16 \<Longrightarrow> hex_value (hex_digit k) = Some k"
  by (auto simp: hex_value_def hex_digit_def Let_def)

lemma json_parse_chars_escape:
  "json_parse_chars (json_escape_char c @ r) = cons_parsed c (json_parse_chars r)"
proof -
  let ?n = "of_char c :: nat"
  have ctrl: "json_parse_chars (BSL # CHR ''u'' # CHR ''0'' # CHR ''0'' #
              hex_digit (?n div 16) # hex_digit (?n mod 16) # r) = cons_parsed c (json_parse_chars r)"
    if "?n < 32"
  proof -
    have h0: "hex_value (CHR ''0'') = Some 0" by (simp add: hex_value_def)
    have h1: "hex_value (hex_digit (?n div 16)) = Some (?n div 16)"
      using that by (intro hex_value_hex_digit) simp
    have h2: "hex_value (hex_digit (?n mod 16)) = Some (?n mod 16)"
      by (intro hex_value_hex_digit) simp
    have "hex_acc 0 [CHR ''0'', CHR ''0'', hex_digit (?n div 16), hex_digit (?n mod 16)]
        = Some (16 * (?n div 16) + ?n mod 16)"
      by (simp add: h0 h1 h2)
    then have "hex_acc 0 [CHR ''0'', CHR ''0'', hex_digit (?n div 16), hex_digit (?n mod 16)] = Some ?n"
      by simp
    with that show ?thesis by simp
  qed
  show ?thesis
  proof (cases "c \<in> {CHR 0x08, CHR 0x09, NL, CHR 0x0C, CHR 0x0D, DQ, BSL} \<or> \<not> ?n < 32")
    case True
    then show ?thesis by (auto simp: json_escape_char_def json_unescape_def cons_parsed_def)
  next
    case False
    then have esc: "json_escape_char c = [BSL, CHR ''u'', CHR ''0'', CHR ''0'',
        hex_digit (?n div 16), hex_digit (?n mod 16)]"
      by (auto simp: json_escape_char_def)
    from False have "?n < 32" by simp
    then show ?thesis by (simp only: esc append_Cons append_Nil ctrl)
  qed
qed

lemma json_parse_chars_quoted:
  "json_parse_chars (concat (map json_escape_char s) @ DQ # rest) = Some (s, rest)"
  by (induction s) (simp_all add: json_parse_chars_escape cons_parsed_def)

lemma json_stringify_shape:
  "json_no_numbers v \<Longrightarrow> \<exists>c cs. json_stringify v = c # cs \<and> \<not> is_json_ws c \<and> c \<noteq> CHR '']'' \<and> c \<noteq> CHR ''}''"
  by (cases v) (auto simp: json_quote_def is_json_ws_def)

lemma skip_ws_stringify [simp]:
  "json_no_numbers v \<Longrightarrow> skip_ws (json_stringify v @ r) = json_stringify v @ r"
  using json_stringify_shape [of v] by auto

lemma skip_ws_quote [simp]: "skip_ws (json_quote s @ r) = json_quote s @ r"
  by (simp add: json_quote_def is_json_ws_def)

lemma json_stringify_elems_Cons:
  "json_stringify_elems (v # vs) = json_stringify v @ (if vs = [] then [] else CHR '','' # json_stringify_elems vs)"
  by (cases vs) auto

lemma json_stringify_members_Cons:
  "json_stringify_members ((k, v) # ms) =
     json_quote k @ CHR '':'' # json_stringify v @ (if ms = [] then [] else CHR '','' # json_stringify_members ms)"
  by (cases ms) auto

lemma json_parse_value_quote:
  "json_parse_value (Suc m) (json_quote s @ r) = Some (JString s, r)"
  by (simp add: json_quote_def json_parse_chars_quoted is_json_ws_def)

lemma json_stringify_elems_shape:
  "vs \<noteq> [] \<Longrightarrow> json_no_numbers_elems vs \<Longrightarrow> \<exists>c cs. json_stringify_elems vs = c # cs \<and> \<not> is_json_ws c \<and> c \<noteq> CHR '']''"
  using json_stringify_shape [of "hd vs"] by (cases vs) (auto simp: json_stringify_elems_Cons)

lemma json_stringify_members_shape:
  "ms \<noteq> [] \<Longrightarrow> \<exists>cs. json_stringify_members ms = DQ # cs"
  by (cases ms) (auto simp: json_stringify_members_Cons json_quote_def)

lemma json_parse_roundtrip:
  "json_no_numbers v \<Longrightarrow> length (json_stringify v) < n \<Longrightarrow>
     json_parse_value n (json_stringify v @ rest) = Some (v, rest)"
  "vs \<noteq> [] \<Longrightarrow> json_no_numbers_elems vs \<Longrightarrow> Suc (length (json_stringify_elems vs)) < n \<Longrightarrow>
     json_parse_elems n (json_stringify_elems vs @ CHR '']'' # rest) = Some (vs, rest)"
  "ms \<noteq> [] \<Longrightarrow> json_no_numbers_members ms \<Longrightarrow> Suc (length (json_stringify_members ms)) < n \<Longrightarrow>
     json_parse_members n (json_stringify_members ms @ CHR ''}'' # rest) = Some (ms, rest)"
proof (induction v and vs and ms arbitrary: n rest and n rest and n rest
    rule: json_stringify_json_stringify_elems_json_stringify_members.induct)
  case 1
  then show ?case by (cases n) (simp_all add: is_json_ws_def)
next
  case (2 b)
  then show ?case by (cases n) (auto simp: is_json_ws_def)
next
  case (4 s)
  then obtain m where "n = Suc m" by (cases n) auto
  then show ?case by (simp only: json_stringify.simps json_parse_value_quote)
next
  case (5 vs)
  then obtain m where n: "n = Suc m" by (cases n) auto
  show ?case
  proof (cases "vs = []")
    case True
    then show ?thesis by (simp add: n is_json_ws_def)
  next
    case False
    have nn: "json_no_numbers_elems vs"
      using "5.prems" by simp
    then obtain c cs where cs: "json_stringify_elems vs = c # cs" "\<not> is_json_ws c" "c \<noteq> CHR '']''"
      using json_stringify_elems_shape False by blast
    from "5.prems" n have "Suc (length (json_stringify_elems vs)) < m" by simp
    with False nn "5.IH" have "json_parse_elems m (json_stringify_elems vs @ CHR '']'' # rest) = Some (vs, rest)"
      by blast
    with cs show ?thesis by (simp add: n is_json_ws_def)
  qed
next
  case (6 ms)
  then obtain m where n: "n = Suc m" by (cases n) auto
  show ?case
  proof (cases "ms = []")
    case True
    then show ?thesis by (simp add: n is_json_ws_def)
  next
    case False
    have nn: "json_no_numbers_members ms"
      using "6.prems" by simp
    obtain cs where cs: "json_stringify_members ms = DQ # cs"
      using json_stringify_members_shape False by blast
    from "6.prems" n have "Suc (length (json_stringify_members ms)) < m" by simp
    with False nn "6.IH" have "json_parse_members m (json_stringify_members ms @ CHR ''}'' # rest) = Some (ms, rest)"
      by blast
    with cs show ?thesis by (simp add: n is_json_ws_def)
  qed
next
  case (8 v)
  then obtain m where n: "n = Suc m" by (cases n) auto
  with "8.prems" have "json_parse_value m (json_stringify v @ CHR '']'' # rest) = Some (v, CHR '']'' # rest)"
    by (intro "8.IH") simp_all
  with "8.prems" show ?case by (simp add: n is_json_ws_def)
next
  case (9 v w vs)
  then obtain m where n: "n = Suc m" by (cases n) auto
  let ?tl = "json_stringify_elems (w # vs) @ CHR '']'' # rest"
  from "9.prems" n have "json_parse_value m (json_stringify v @ CHR '','' # ?tl) = Some (v, CHR '','' # ?tl)"
    by (intro "9.IH"(1)) simp_all
  moreover from "9.prems" n have "json_parse_elems m ?tl = Some (w # vs, rest)"
    by (intro "9.IH"(2)) simp_all
  ultimately show ?case using "9.prems" by (simp add: n is_json_ws_def cons_parsed_def)
next
  case (11 k v)
  then obtain m where n: "n = Suc m" by (cases n) auto
  with "11.prems" have "json_parse_value m (json_stringify v @ CHR ''}'' # rest) = Some (v, CHR ''}'' # rest)"
    by (intro "11.IH") simp_all
  with "11.prems" show ?case by (simp add: n is_json_ws_def json_quote_def json_parse_chars_quoted)
next
  case (12 k v m' ms)
  then obtain m where n: "n = Suc m" by (cases n) auto
  let ?tl = "json_stringify_members (m' # ms) @ CHR ''}'' # rest"
  from "12.prems" n have "json_parse_value m (json_stringify v @ CHR '','' # ?tl) = Some (v, CHR '','' # ?tl)"
    by (intro "12.IH"(1)) simp_all
  moreover from "12.prems" n have "json_parse_members m ?tl = Some (m' # ms, rest)"
    by (intro "12.IH"(2)) simp_all
  ultimately show ?case using "12.prems"
    by (simp add: n is_json_ws_def json_quote_def json_parse_chars_quoted cons_parsed_def)
qed simp_all

text \<open>\<open>JSON.parse\<close> reads back every number-free value \<open>JSON.stringify\<close> writes.\<close>

theorem json_parse_stringify: "json_no_numbers v \<Longrightarrow> json_parse (json_stringify v) = Some v"
  using json_parse_roundtrip(1) [of v "Suc (length (json_stringify v))" "[]"]
  by (simp add: json_parse_def)

end
