(* ===== verification/Service.thy ===== *)
theory Service
  imports Json
begin

text \<open>
  The field data service (\<open>FieldService\<close> in \<open>src/src/components/MockService.js\<close>).
  \<open>getField\<close> ignores its identifier and returns one fixed field definition.
  \<open>saveField\<close> is asynchronous: when called it logs and sends one \<open>POST\<close> request whose
  body is the JSON text of the payload (\<open>saveField_call\<close>); when the \<open>fetch\<close> promise
  settles it logs the outcome and its own promise resolves (\<open>saveField_settle\<close>). The
  outcome of the network is an input of the model (\<open>fetch_outcome\<close>). The lemma on
  \<open>saveField_settle\<close> characterises the console entry each outcome logs.
\<close>

subsection \<open>Data\<close>

record field_definition =
  fd_label :: js_string
  fd_required :: bool
  fd_choices :: "js_string list"
  fd_displayAlpha :: bool
  fd_default :: js_string

text \<open>The payload the form passes to \<open>saveField\<close>.\<close>

record save_data =
  sd_label :: js_string
  sd_choices :: "js_string list"
  sd_defaultValue :: js_string
  sd_displayAlpha :: bool

record http_request =
  req_method :: js_string
  req_url :: js_string
  req_headers :: "(js_string \<times> js_string) list"
  req_body :: js_string

text \<open>How a \<open>fetch\<close> call ends: its promise rejects (network failure), or a response
  arrives with a status code and a body text.\<close>

datatype fetch_outcome = Fetch_rejected | Fetch_response nat js_string

datatype console_entry =
    Log_called
  | Log_posted save_data
  | Log_server_response json
  | Error_status nat
  | Error_posting

datatype promise_result = Fulfilled | Rejected

subsection \<open>Operations\<close>

definition getField :: "js_string option \<Rightarrow> field_definition" where
  "getField field_id =
     \<lparr>fd_label = ''Sales region'',
      fd_required = False,
      fd_choices = [''Asia'', ''Australia'', ''Western Europe'', ''North America'',
                    ''Eastern Europe'', ''Latin America'', ''Middle East and Africa''],
      fd_displayAlpha = True,
      fd_default = ''North America''\<rparr>"

text \<open>\<open>JSON.stringify(data)\<close>: the keys in the order of the object literal that builds
  the payload.\<close>

definition save_data_json :: "save_data \<Rightarrow> json" where
  "save_data_json d =
     JObject [(''label'', JString (sd_label d)),
              (''choices'', JArray (map JString (sd_choices d))),
              (''defaultValue'', JString (sd_defaultValue d)),
              (''displayAlpha'', JBool (sd_displayAlpha d))]"

definition save_endpoint :: js_string where
  "save_endpoint = ''http://www.mocky.io/v2/566061f21200008e3aabd919''"

text \<open>The synchronous part of \<open>saveField(data)\<close>: the two log lines and the request
  handed to \<open>fetch\<close>.\<close>

definition saveField_call :: "save_data \<Rightarrow> console_entry list \<times> http_request" where
  "saveField_call d =
     ([Log_called, Log_posted d],
      \<lparr>req_method = ''POST'', req_url = save_endpoint,
       req_headers = [(''Content-Type'', ''application/json'')],
       req_body = json_stringify (save_data_json d)\<rparr>)"

text \<open>The rest of \<open>saveField\<close>, after \<open>fetch\<close> settles: a 2xx response has its body
  parsed (\<open>response.json()\<close>, which rejects on a malformed body) and logged; another
  status is logged as an error; every rejection is caught by the \<open>catch\<close> block and
  logged. The promise of \<open>saveField\<close> then resolves.\<close>

definition response_ok :: "nat \<Rightarrow> bool" where
  "response_ok status \<longleftrightarrow> 200 \<le> status \<and> status \<le> 299"

definition saveField_settle :: "fetch_outcome \<Rightarrow> console_entry list \<times> promise_result" where
  "saveField_settle out =
     (case out of
        Fetch_rejected \<Rightarrow> ([Error_posting], Fulfilled)
      | Fetch_response status body \<Rightarrow>
          if response_ok status then
            (case json_parse body of
               Some v \<Rightarrow> ([Log_server_response v], Fulfilled)
             | None \<Rightarrow> ([Error_posting], Fulfilled))
          else ([Error_status status], Fulfilled))"

subsection \<open>Properties\<close>

text \<open>C29. Every settlement logs exactly one console entry, and it is the
  \<open>Error posting data\<close> entry both when the network fails and when a 2xx response's
  body is not JSON: the log does not tell a failed post from a successful one with a
  malformed reply.\<close>

theorem saveField_settle_one_entry:
  "\<exists>c. fst (saveField_settle out) = [c]
       \<and> (c = Error_posting \<longleftrightarrow>
            out = Fetch_rejected
            \<or> (\<exists>st body. out = Fetch_response st body \<and> response_ok st \<and> json_parse body = None))"
  by (simp add: saveField_settle_def split: fetch_outcome.split option.split)

theorem saveField_settle_one_entry_witness:
  "fst (saveField_settle (Fetch_response 200 ''ok'')) = [Error_posting]
   \<and> (\<exists>c. fst (saveField_settle (Fetch_response 200 ''ok'')) = [c]
        \<and> (c = Error_posting \<longleftrightarrow>
             Fetch_response 200 ''ok'' = Fetch_rejected
             \<or> (\<exists>st body. Fetch_response 200 ''ok'' = Fetch_response st body \<and> response_ok st
                          \<and> json_parse body = None)))"
proof -
  have "json_parse ''ok'' = None"
    by (simp add: json_parse_def is_json_ws_def is_digit_def)
  then have "fst (saveField_settle (Fetch_response 200 ''ok'')) = [Error_posting]"
    by (simp add: saveField_settle_def response_ok_def)
  then show ?thesis
    using saveField_settle_one_entry [of "Fetch_response 200 ''ok''"] by simp
qed

end
