(* ===== verification/Controller.thy ===== *)
theory Controller
  imports Validation Service
begin

text \<open>
  The form controller, the component \<open>FieldBuilderForm\<close> of
  \<open>src/src/components/FieldBuilderForm.js\<close>. Its state is the record \<open>form_state\<close>,
  one field per \<open>useState\<close> hook. A handler or an effect does not change the state
  itself: it queues state setter calls (\<open>setLabel(\<dots>)\<close>, \<open>setIsLoading(\<dots>)\<close>, \<dots>),
  which React applies in order after the handler returns, reading every variable from
  the state of the render that created the handler. The model follows this: each setter
  call is a \<open>set_action\<close>; a handler is a function from the render's state to the
  list of set actions it queues and the list of payloads it passes to
  \<open>FieldService.saveField\<close>; \<open>apply_sets\<close> applies a batch. The view
  (\<open>render\<close>) gives the values the inputs show. The effects (the persisted draft and
  the mount) are in \<open>Draft\<close>. The lemmas give each handler's batch on every branch.
\<close>

subsection \<open>State\<close>

text \<open>The four editable fields: the shape of the persisted draft and of
  \<open>initialData\<close>.\<close>

record form_data =
  data_label :: js_string
  data_choices :: js_string
  data_defaultValue :: js_string
  data_displayAlpha :: bool

record form_state =
  label :: js_string
  choices :: js_string
  defaultValue :: js_string
  displayAlpha :: bool
  validationErrors :: "js_string list"
  isLoading :: bool
  initialData :: form_data

definition empty_form_data :: form_data where
  "empty_form_data =
     \<lparr>data_label = [], data_choices = [], data_defaultValue = [], data_displayAlpha = True\<rparr>"

text \<open>The initial values of the \<open>useState\<close> hooks.\<close>

definition initial_form_state :: form_state where
  "initial_form_state =
     \<lparr>label = [], choices = [], defaultValue = [], displayAlpha = True,
      validationErrors = [], isLoading = False, initialData = empty_form_data\<rparr>"

definition form_fields :: "form_state \<Rightarrow> form_data" where
  "form_fields s =
     \<lparr>data_label = label s, data_choices = choices s,
      data_defaultValue = defaultValue s, data_displayAlpha = displayAlpha s\<rparr>"

subsection \<open>State setters\<close>

datatype set_action =
    SetLabel js_string
  | SetChoices js_string
  | SetDefaultValue js_string
  | SetDisplayAlpha bool
  | SetValidationErrors "js_string list"
  | SetIsLoading bool
  | SetInitialData form_data

fun apply_set :: "form_state \<Rightarrow> set_action \<Rightarrow> form_state" where
  "apply_set s (SetLabel v) = s\<lparr>label := v\<rparr>"
| "apply_set s (SetChoices v) = s\<lparr>choices := v\<rparr>"
| "apply_set s (SetDefaultValue v) = s\<lparr>defaultValue := v\<rparr>"
| "apply_set s (SetDisplayAlpha v) = s\<lparr>displayAlpha := v\<rparr>"
| "apply_set s (SetValidationErrors v) = s\<lparr>validationErrors := v\<rparr>"
| "apply_set s (SetIsLoading v) = s\<lparr>isLoading := v\<rparr>"
| "apply_set s (SetInitialData v) = s\<lparr>initialData := v\<rparr>"

text \<open>A batch is applied in the order the calls were made: the last call to a setter
  wins.\<close>

definition apply_sets :: "form_state \<Rightarrow> set_action list \<Rightarrow> form_state" where
  "apply_sets s as = foldl apply_set s as"

text \<open>The setters of the four editable fields, as the effects and \<open>cancelAndReset\<close>
  call them.\<close>

definition set_fields :: "form_data \<Rightarrow> set_action list" where
  "set_fields d =
     [SetLabel (data_label d), SetChoices (data_choices d),
      SetDefaultValue (data_defaultValue d), SetDisplayAlpha (data_displayAlpha d)]"

subsection \<open>Handlers\<close>

text \<open>\<open>validateForm\<close>: queues the new error list and returns whether it is empty.\<close>

definition validateForm :: "form_state \<Rightarrow> set_action list \<times> bool" where
  "validateForm s =
     (let errors = validate_errors (label s) (choices s)
      in ([SetValidationErrors errors], errors = []))"

text \<open>\<open>handleSubmit\<close>. The payload's choices are the lines of \<open>choices\<close> as the render
  saw it: the appended line \<open>newChoices\<close> only reaches the state.\<close>

definition handleSubmit :: "form_state \<Rightarrow> set_action list \<times> save_data list" where
  "handleSubmit s =
     (let (vsets, valid) = validateForm s
      in if valid then
           (let csets =
                  (if \<not> js_includes (choices s) (defaultValue s)
                   then [SetChoices (choices s @ NL # defaultValue s)]
                   else [SetIsLoading False]);
                data = \<lparr>sd_label = label s, sd_choices = js_split NL (choices s),
                        sd_defaultValue = defaultValue s, sd_displayAlpha = displayAlpha s\<rparr>
            in ([SetIsLoading True] @ vsets @ csets, [data]))
         else ([SetIsLoading True] @ vsets, []))"

definition clearForm :: "form_state \<Rightarrow> set_action list" where
  "clearForm s =
     [SetLabel [], SetChoices [], SetDefaultValue [], SetDisplayAlpha True,
      SetValidationErrors []]"

definition cancelAndReset :: "form_state \<Rightarrow> set_action list" where
  "cancelAndReset s = set_fields (initialData s) @ [SetValidationErrors []]"

text \<open>The \<open>onChange\<close> handlers of the inputs; the order select stores whether the
  selected option is \<open>alphabetical\<close>.\<close>

definition onLabelChange :: "js_string \<Rightarrow> set_action list" where
  "onLabelChange v = [SetLabel v]"

definition onDefaultValueChange :: "js_string \<Rightarrow> set_action list" where
  "onDefaultValueChange v = [SetDefaultValue v]"

definition onChoicesChange :: "js_string \<Rightarrow> set_action list" where
  "onChoicesChange v = [SetChoices v]"

definition onOrderChange :: "js_string \<Rightarrow> set_action list" where
  "onOrderChange v = [SetDisplayAlpha (v = ''alphabetical'')]"

text \<open>The payload \<open>handleSubmit\<close> passes to the service when the form is valid.\<close>

definition submit_payload :: "form_state \<Rightarrow> save_data" where
  "submit_payload s =
     \<lparr>sd_label = label s, sd_choices = js_split NL (choices s),
      sd_defaultValue = defaultValue s, sd_displayAlpha = displayAlpha s\<rparr>"

subsection \<open>View\<close>

definition submitButton_text :: "bool \<Rightarrow> js_string" where
  "submitButton_text loading = (if loading then ''Saving...'' else ''Save changes'')"

record form_view =
  view_label :: js_string
  view_defaultValue :: js_string
  view_choices :: js_string
  view_order :: js_string
  view_button :: js_string
  view_errors :: "js_string list"

text \<open>What the form shows: the controlled inputs' values, the selected order option, the
  submit button's text and the messages displayed under the inputs, in page order.\<close>

definition render :: "form_state \<Rightarrow> form_view" where
  "render s =
     \<lparr>view_label = label s, view_defaultValue = defaultValue s, view_choices = choices s,
      view_order = (if displayAlpha s then ''alphabetical'' else ''original''),
      view_button = submitButton_text (isLoading s),
      view_errors = filter (\<lambda>m. m \<in> set (validationErrors s))
                      [msg_label_required, msg_duplicate_choices, msg_too_many_choices]\<rparr>"

subsection \<open>Batches\<close>

lemma apply_sets_Nil [simp]: "apply_sets s [] = s"
  by (simp add: apply_sets_def)

lemma apply_sets_Cons [simp]: "apply_sets s (a # as) = apply_sets (apply_set s a) as"
  by (simp add: apply_sets_def)

lemma apply_sets_append [simp]: "apply_sets s (as @ bs) = apply_sets (apply_sets s as) bs"
  by (simp add: apply_sets_def)

text \<open>A batch that calls no setter of a field leaves that field as it was.\<close>

lemma apply_sets_frame:
  assumes "\<forall>x \<in> set as. \<forall>s. g (apply_set s x) = g s"
  shows "g (apply_sets s as) = g s"
  using assms by (induction as arbitrary: s) auto

lemma form_fields_validationErrors [simp]:
  "form_fields (s\<lparr>validationErrors := v\<rparr>) = form_fields s"
  by (simp add: form_fields_def)

lemma form_fields_apply_set_fields [simp]:
  "form_fields (apply_sets s (set_fields d)) = d"
  by (simp add: set_fields_def form_fields_def)

subsection \<open>Behaviour of the handlers\<close>

lemma validateForm_eq [handler_simps]:
  "validateForm s = ([SetValidationErrors (validate_errors (label s) (choices s))],
                     validate_errors (label s) (choices s) = [])"
  by (simp add: validateForm_def Let_def)

lemma handleSubmit_eq [handler_simps]:
  "handleSubmit s =
     (if validate_errors (label s) (choices s) = [] then
        ([SetIsLoading True, SetValidationErrors [],
          if \<not> js_includes (choices s) (defaultValue s)
          then SetChoices (choices s @ NL # defaultValue s) else SetIsLoading False],
         [submit_payload s])
      else ([SetIsLoading True, SetValidationErrors (validate_errors (label s) (choices s))], []))"
  by (simp add: handleSubmit_def validateForm_eq submit_payload_def Let_def)

declare onLabelChange_def [handler_simps] onDefaultValueChange_def [handler_simps]
  onChoicesChange_def [handler_simps] onOrderChange_def [handler_simps] clearForm_def [handler_simps]
  cancelAndReset_def [handler_simps] set_fields_def [handler_simps]

text \<open>C2. Submitting an invalid form shows the failing messages, sends nothing, changes no
  editable field, and leaves the loading flag set: nothing ever clears it on this path.\<close>

theorem handleSubmit_invalid:
  assumes "validate_errors (label s) (choices s) \<noteq> []"
  shows "apply_sets s (fst (handleSubmit s)) =
           s\<lparr>isLoading := True, validationErrors := validate_errors (label s) (choices s)\<rparr>
         \<and> snd (handleSubmit s) = []"
  using assms by (simp add: handleSubmit_def validateForm_def Let_def)

theorem handleSubmit_invalid_witness:
  "let s = initial_form_state\<lparr>label := ''Region'', choices := ''Asia'' @ NL # ''Asia''\<rparr>
   in validate_errors (label s) (choices s) \<noteq> []
      \<and> apply_sets s (fst (handleSubmit s)) =
          s\<lparr>isLoading := True, validationErrors := [msg_duplicate_choices]\<rparr>
      \<and> snd (handleSubmit s) = []"
proof -
  let ?s = "initial_form_state\<lparr>label := ''Region'', choices := ''Asia'' @ NL # ''Asia''\<rparr>"
  have v: "validate_errors (label ?s) (choices ?s) = [msg_duplicate_choices]"
    by (simp add: validate_errors_def js_set_size_def max_choices_def)
  show ?thesis using handleSubmit_invalid [of ?s] v by (simp add: Let_def)
qed

text \<open>C4. Submitting a valid form whose choices text already contains the default value
  clears the messages, sends the lines of the choices text, and clears the loading flag
  at once, while the save is still in flight.\<close>

theorem handleSubmit_valid_included:
  assumes "validate_errors (label s) (choices s) = []"
    and "js_includes (choices s) (defaultValue s)"
  shows "apply_sets s (fst (handleSubmit s)) = s\<lparr>isLoading := False, validationErrors := []\<rparr>
         \<and> snd (handleSubmit s) =
             [\<lparr>sd_label = label s, sd_choices = js_split NL (choices s),
               sd_defaultValue = defaultValue s, sd_displayAlpha = displayAlpha s\<rparr>]"
  using assms by (simp add: handleSubmit_def validateForm_def Let_def)

theorem handleSubmit_valid_included_witness:
  "let s = initial_form_state\<lparr>label := ''Region'', choices := ''Asia'' @ NL # ''Europe'',
                              defaultValue := ''Europe''\<rparr>
   in validate_errors (label s) (choices s) = [] \<and> js_includes (choices s) (defaultValue s)
      \<and> apply_sets s (fst (handleSubmit s)) = s
      \<and> map sd_choices (snd (handleSubmit s)) = [[''Asia'', ''Europe'']]"
proof -
  let ?s = "initial_form_state\<lparr>label := ''Region'', choices := ''Asia'' @ NL # ''Europe'',
                               defaultValue := ''Europe''\<rparr>"
  have v: "validate_errors (label ?s) (choices ?s) = []"
    by (simp add: validate_errors_def js_set_size_def max_choices_def)
  have i: "js_includes (choices ?s) (defaultValue ?s)" by simp
  show ?thesis using handleSubmit_valid_included [of ?s] v i
    by (simp add: Let_def initial_form_state_def)
qed

text \<open>C3. Submitting a valid form whose choices text does not contain the default value
  appends the default value as a new line and keeps the loading flag set until the save
  settles; the payload sent carries the lines of the text as it was before the append.\<close>

theorem handleSubmit_valid_appends:
  assumes "validate_errors (label s) (choices s) = []"
    and "\<not> js_includes (choices s) (defaultValue s)"
  shows "apply_sets s (fst (handleSubmit s)) =
           s\<lparr>isLoading := True, validationErrors := [], choices := choices s @ NL # defaultValue s\<rparr>
         \<and> snd (handleSubmit s) =
             [\<lparr>sd_label = label s, sd_choices = js_split NL (choices s),
               sd_defaultValue = defaultValue s, sd_displayAlpha = displayAlpha s\<rparr>]"
  using assms by (simp add: handleSubmit_def validateForm_def Let_def)

text \<open>The spec's scenario: with choices \<open>Asia\nEurope\<close> and default \<open>Africa\<close> the
  text becomes \<open>Asia\nEurope\nAfrica\<close>, but the payload sent is
  \<open>["Asia", "Europe"]\<close>, not the \<open>["Asia", "Europe", "Africa"]\<close> the spec states.\<close>

theorem handleSubmit_valid_appends_witness:
  "let s = initial_form_state\<lparr>label := ''Region'', choices := ''Asia'' @ NL # ''Europe'',
                              defaultValue := ''Africa''\<rparr>
   in validate_errors (label s) (choices s) = [] \<and> \<not> js_includes (choices s) (defaultValue s)
      \<and> choices (apply_sets s (fst (handleSubmit s))) = ''Asia'' @ NL # ''Europe'' @ NL # ''Africa''
      \<and> isLoading (apply_sets s (fst (handleSubmit s)))
      \<and> map sd_choices (snd (handleSubmit s)) = [[''Asia'', ''Europe'']]"
proof -
  let ?s = "initial_form_state\<lparr>label := ''Region'', choices := ''Asia'' @ NL # ''Europe'',
                               defaultValue := ''Africa''\<rparr>"
  have v: "validate_errors (label ?s) (choices ?s) = []"
    by (simp add: validate_errors_def js_set_size_def max_choices_def)
  have i: "\<not> js_includes (choices ?s) (defaultValue ?s)" by simp
  show ?thesis using handleSubmit_valid_appends [of ?s] v i by (simp add: Let_def)
qed

lemma submit_append_choices:
  assumes "validate_errors (label s) (choices s) = []" and "\<not> js_includes (choices s) (defaultValue s)"
  shows "choices (apply_sets s (fst (handleSubmit s))) = choices s @ NL # defaultValue s
         \<and> label (apply_sets s (fst (handleSubmit s))) = label s"
  using assms by (simp add: handleSubmit_eq)

text \<open>C11. Clearing empties the three text fields, selects alphabetical order and removes
  every message, whatever the state was.\<close>

theorem clearForm_resets:
  "form_fields (apply_sets s (clearForm s)) = empty_form_data
   \<and> validationErrors (apply_sets s (clearForm s)) = []
   \<and> isLoading (apply_sets s (clearForm s)) = isLoading s
   \<and> initialData (apply_sets s (clearForm s)) = initialData s"
  by (simp add: clearForm_def form_fields_def empty_form_data_def)

text \<open>C12. Cancelling restores the four editable fields from \<open>initialData\<close> and removes every
  message.\<close>

theorem cancelAndReset_restores:
  "form_fields (apply_sets s (cancelAndReset s)) = initialData s
   \<and> validationErrors (apply_sets s (cancelAndReset s)) = []
   \<and> isLoading (apply_sets s (cancelAndReset s)) = isLoading s"
  by (simp add: cancelAndReset_def set_fields_def form_fields_def)

end
