(* ===== verification/JsonFuel.thy ===== *)
theory JsonFuel
  imports Json
begin

text \<open>
  Fuel adequacy of the JSON parser of \<open>Json\<close>. The parser's functions take fuel and
  return \<open>None\<close> both on a syntax error and when the fuel runs out, so its results are
  those of \<open>JSON.parse\<close> only if the fuel \<open>json_parse\<close> supplies never runs out. The
  lemmas show that every parse consumes at least one character and is found again with
  as much fuel as the characters it consumes (\<open>json_parse_fuel_bound\<close>); hence the fuel
  \<open>Suc (length s)\<close> finds every parse that any fuel finds, and \<open>json_parse\<close> accepts
  exactly the texts some fuel parses (\<open>json_parse_complete\<close>).
\<close>

lemma skip_ws_length: "length (skip_ws s) \<le> length s"
  by (induction s) auto

lemma skip_ws_Cons_length: "skip_ws s = c # r \<Longrightarrow> length r < length s"
  using skip_ws_length [of s] by simp

lemma map_option_split_Some:
  "map_option (\<lambda>(a, b). (f a, b)) x = Some (y, r) \<Longrightarrow> \<exists>a. x = Some (a, r) \<and> y = f a"
  by (cases x) auto

lemma json_lex_digits_length: "json_lex_digits s = Some (ds, r) \<Longrightarrow> length r \<le> length s"
  by (auto simp: json_lex_digits_def length_dropWhile_le split: if_splits)

lemma json_lex_int_length: "json_lex_int s = Some (i, r) \<Longrightarrow> length r < length s"
  by (cases s) (auto simp: json_lex_int_def le_imp_less_Suc length_dropWhile_le split: if_splits)

lemma json_lex_frac_length: "json_lex_frac s = Some (f, r) \<Longrightarrow> length r \<le> length s"
proof (cases s)
  case (Cons c s')
  moreover assume "json_lex_frac s = Some (f, r)"
  ultimately show ?thesis
    by (cases "c = CHR ''.''")
      (auto simp: json_lex_frac_def dest!: map_option_split_Some json_lex_digits_length)
qed (simp add: json_lex_frac_def)

lemma json_lex_exp_length: "json_lex_exp s = Some (e, r) \<Longrightarrow> length r \<le> length s"
proof (cases s)
  case (Cons c s')
  assume h: "json_lex_exp s = Some (e, r)"
  show ?thesis
  proof (cases "c = CHR ''e'' \<or> c = CHR ''E''")
    case True
    with h Cons obtain d s'' where s': "s' = d # s''"
      by (cases s') (auto simp: json_lex_exp_def)
    show ?thesis
      using h Cons True s'
      by (cases "d = CHR ''+'' \<or> d = CHR ''-''")
        (auto simp: json_lex_exp_def dest!: map_option_split_Some json_lex_digits_length)
  next
    case False
    with h Cons show ?thesis
      by (simp add: json_lex_exp_def)
  qed
qed (simp add: json_lex_exp_def)

lemma json_lex_number_parts:
  assumes "json_lex_number s = Some (l, r)"
  shows "\<exists>s1 i r1 f r2 e. length s1 \<le> length s \<and> json_lex_int s1 = Some (i, r1)
           \<and> json_lex_frac r1 = Some (f, r2) \<and> json_lex_exp r2 = Some (e, r)"
proof (cases s)
  case Nil
  with assms show ?thesis
    by (simp add: json_lex_number_def json_lex_int_def)
next
  case (Cons c s')
  show ?thesis
  proof (cases "c = CHR ''-''")
    case True
    with assms Cons obtain i r1 f r2 e where "json_lex_int s' = Some (i, r1)"
      and "json_lex_frac r1 = Some (f, r2)" and "json_lex_exp r2 = Some (e, r)"
      by (auto simp: json_lex_number_def split: option.splits)
    moreover have "length s' \<le> length s"
      using Cons by simp
    ultimately show ?thesis
      by blast
  next
    case False
    with assms Cons obtain i r1 f r2 e where "json_lex_int s = Some (i, r1)"
      and "json_lex_frac r1 = Some (f, r2)" and "json_lex_exp r2 = Some (e, r)"
      by (auto simp: json_lex_number_def split: option.splits)
    then show ?thesis
      by blast
  qed
qed

lemma json_lex_number_length: "json_lex_number s = Some (l, r) \<Longrightarrow> length r < length s"
  by (drule json_lex_number_parts)
    (auto dest!: json_lex_int_length json_lex_frac_length json_lex_exp_length)

lemma json_parse_chars_length: "json_parse_chars s = Some p \<Longrightarrow> length (snd p) < length s"
proof (induction s arbitrary: p rule: json_parse_chars.induct)
  case 1
  then show ?case by simp
next
  case (2 c cs)
  then show ?case
    by (fastforce simp: cons_parsed_def split: if_splits list.splits option.splits)
qed

lemma cons_parsed_Some:
  "cons_parsed x p = Some (ys, r) \<Longrightarrow> \<exists>xs. p = Some (xs, r) \<and> ys = x # xs"
  by (cases p) (auto simp: cons_parsed_def)

lemma fuel_from_Suc:
  assumes "length r < length s \<and> (\<forall>n. length s - length r \<le> Suc n \<longrightarrow> P (Suc n))"
  shows "length r < length s \<and> (\<forall>n. length s - length r \<le> n \<longrightarrow> P n)"
proof (intro conjI allI impI)
  show "length r < length s"
    using assms ..
next
  fix n
  assume n: "length s - length r \<le> n"
  with assms obtain n' where "n = Suc n'"
    by (cases n) auto
  with assms n show "P n"
    by simp
qed

lemma json_parse_value_fuel:
  assumes IHe: "\<And>s vs r. json_parse_elems m s = Some (vs, r) \<Longrightarrow> length r < length s
               \<and> (\<forall>n. length s - length r \<le> n \<longrightarrow> json_parse_elems n s = Some (vs, r))"
    and IHm: "\<And>s ms r. json_parse_members m s = Some (ms, r) \<Longrightarrow> length r < length s
               \<and> (\<forall>n. length s - length r \<le> n \<longrightarrow> json_parse_members n s = Some (ms, r))"
    and h: "json_parse_value (Suc m) s = Some (v, r)"
  shows "length r < length s
         \<and> (\<forall>n. length s - length r \<le> n \<longrightarrow> json_parse_value n s = Some (v, r))"
proof -
  obtain c r0 where sk: "skip_ws s = c # r0"
    using h by (cases "skip_ws s") auto
  have l0: "length r0 < length s"
    using sk by (rule skip_ws_Cons_length)
  define r1 where "r1 = skip_ws r0"
  have l1: "length r1 < length s"
    using l0 skip_ws_length [of r0] by (simp add: r1_def)
  have main: "length r < length s
              \<and> (\<forall>n. length s - length r \<le> Suc n \<longrightarrow> json_parse_value (Suc n) s = Some (v, r))"
  proof (cases "c = CHR ''['' \<or> c = CHR ''{''")
    case False
    then have eq: "json_parse_value (Suc n) s = json_parse_value (Suc m) s" for n
      using sk by simp
    have "length r < length s"
    proof (cases "c = DQ")
      case True
      with h sk obtain str where "json_parse_chars r0 = Some (str, r)"
        by (auto dest!: map_option_split_Some)
      then show ?thesis
        using json_parse_chars_length [of r0 "(str, r)"] l0 by simp
    next
      case False
      note nb = False \<open>\<not> (c = CHR ''['' \<or> c = CHR ''{'')\<close>
      show ?thesis
      proof (cases "starts_with (c # r0) ''null'' \<or> starts_with (c # r0) ''true''
                    \<or> starts_with (c # r0) ''false''")
        case True
        with h sk nb have "r = drop 3 r0 \<or> r = drop 4 r0"
          by (auto split: if_splits)
        then show ?thesis
          using l0 by auto
      next
        case lit: False
        with h sk nb have "map_option (\<lambda>(l, r'). (JNumber l, r')) (json_lex_number (c # r0)) = Some (v, r)"
          by (simp split: if_splits)
        then obtain l where "json_lex_number (c # r0) = Some (l, r)"
          by (cases "json_lex_number (c # r0)") auto
        then show ?thesis
          using l0 json_lex_number_length [of "c # r0" l r] by simp
      qed
    qed
    then show ?thesis
      using eq h by simp
  next
    case True
    then consider "c = CHR ''[''" | "c = CHR ''{''"
      by blast
    then show ?thesis
    proof cases
      case 1
      show ?thesis
      proof (cases "r1 \<noteq> [] \<and> hd r1 = CHR '']''")
        case True
        then have eq: "json_parse_value (Suc n) s = json_parse_value (Suc m) s" for n
          using sk 1 by (simp add: r1_def Let_def)
        from True h sk 1 have "r = tl r1"
          by (simp add: r1_def Let_def)
        then show ?thesis
          using eq h l1 True by (cases r1) auto
      next
        case False
        with h sk 1 obtain vs where e: "json_parse_elems m r1 = Some (vs, r)" and v: "v = JArray vs"
          by (auto simp: r1_def Let_def dest!: map_option_split_Some)
        have lr: "length r < length s"
          using IHe [OF e] l1 by simp
        have "json_parse_value (Suc n) s = Some (v, r)" if "length s - length r \<le> Suc n" for n
        proof -
          have "json_parse_elems n r1 = Some (vs, r)"
            using IHe [OF e] that l1 by simp
          then show ?thesis
            using sk 1 False v by (auto simp: r1_def [symmetric] Let_def)
        qed
        then show ?thesis
          using lr by blast
      qed
    next
      case 2
      show ?thesis
      proof (cases "r1 \<noteq> [] \<and> hd r1 = CHR ''}''")
        case True
        then have eq: "json_parse_value (Suc n) s = json_parse_value (Suc m) s" for n
          using sk 2 by (simp add: r1_def Let_def)
        from True h sk 2 have "r = tl r1"
          by (simp add: r1_def Let_def)
        then show ?thesis
          using eq h l1 True by (cases r1) auto
      next
        case False
        with h sk 2 obtain ms where e: "json_parse_members m r1 = Some (ms, r)"
          and v: "v = JObject ms"
          by (auto simp: r1_def Let_def dest!: map_option_split_Some)
        have lr: "length r < length s"
          using IHm [OF e] l1 by simp
        have "json_parse_value (Suc n) s = Some (v, r)" if "length s - length r \<le> Suc n" for n
        proof -
          have "json_parse_members n r1 = Some (ms, r)"
            using IHm [OF e] that l1 by simp
          then show ?thesis
            using sk 2 False v by (auto simp: r1_def [symmetric] Let_def)
        qed
        then show ?thesis
          using lr by blast
      qed
    qed
  qed
  then show ?thesis
    by (rule fuel_from_Suc)
qed

lemma json_parse_elems_fuel:
  assumes IHv: "\<And>s v r. json_parse_value m s = Some (v, r) \<Longrightarrow> length r < length s
               \<and> (\<forall>n. length s - length r \<le> n \<longrightarrow> json_parse_value n s = Some (v, r))"
    and IHe: "\<And>s vs r. json_parse_elems m s = Some (vs, r) \<Longrightarrow> length r < length s
               \<and> (\<forall>n. length s - length r \<le> n \<longrightarrow> json_parse_elems n s = Some (vs, r))"
    and h: "json_parse_elems (Suc m) s = Some (vs, r)"
  shows "length r < length s
         \<and> (\<forall>n. length s - length r \<le> n \<longrightarrow> json_parse_elems n s = Some (vs, r))"
proof -
  obtain v r0 where hv: "json_parse_value m s = Some (v, r0)"
    using h by (auto split: option.splits)
  obtain c r' where sk: "skip_ws r0 = c # r'"
    using h hv by (cases "skip_ws r0") auto
  have l0: "length r0 < length s"
    using IHv [OF hv] ..
  have l': "length r' < length r0"
    using sk by (rule skip_ws_Cons_length)
  have "length r < length s
        \<and> (\<forall>n. length s - length r \<le> Suc n \<longrightarrow> json_parse_elems (Suc n) s = Some (vs, r))"
  proof (cases "c = CHR '',''")
    case True
    with h hv sk obtain vs' where e: "json_parse_elems m r' = Some (vs', r)" and vs: "vs = v # vs'"
      by (auto dest!: cons_parsed_Some)
    have lr: "length r < length r'"
      using IHe [OF e] ..
    have "json_parse_elems (Suc n) s = Some (vs, r)" if "length s - length r \<le> Suc n" for n
    proof -
      have "json_parse_value n s = Some (v, r0)"
        using IHv [OF hv] that lr l' by simp
      moreover have "json_parse_elems n r' = Some (vs', r)"
        using IHe [OF e] that l0 l' by simp
      ultimately show ?thesis
        using sk True vs by (simp add: cons_parsed_def)
    qed
    then show ?thesis
      using lr l' l0 by simp
  next
    case False
    with h hv sk have c: "c = CHR '']''" and vs: "vs = [v]" and r: "r = r'"
      by (auto split: if_splits)
    have "json_parse_elems (Suc n) s = Some (vs, r)" if "length s - length r \<le> Suc n" for n
    proof -
      have "json_parse_value n s = Some (v, r0)"
        using IHv [OF hv] that l' r by simp
      then show ?thesis
        using sk c vs r by simp
    qed
    then show ?thesis
      using l' l0 r by simp
  qed
  then show ?thesis
    by (rule fuel_from_Suc)
qed

lemma json_parse_members_fuel:
  assumes IHv: "\<And>s v r. json_parse_value m s = Some (v, r) \<Longrightarrow> length r < length s
               \<and> (\<forall>n. length s - length r \<le> n \<longrightarrow> json_parse_value n s = Some (v, r))"
    and IHm: "\<And>s ms r. json_parse_members m s = Some (ms, r) \<Longrightarrow> length r < length s
               \<and> (\<forall>n. length s - length r \<le> n \<longrightarrow> json_parse_members n s = Some (ms, r))"
    and h: "json_parse_members (Suc m) s = Some (ms, r)"
  shows "length r < length s
         \<and> (\<forall>n. length s - length r \<le> n \<longrightarrow> json_parse_members n s = Some (ms, r))"
proof -
  obtain c r0 where sk: "skip_ws s = c # r0"
    using h by (cases "skip_ws s") auto
  from h sk have c: "c = DQ"
    by (auto split: if_splits)
  from h sk c obtain k r1 where kc: "json_parse_chars r0 = Some (k, r1)"
    by (auto split: option.splits)
  from h sk c kc obtain d r2 where sk2: "skip_ws r1 = d # r2"
    by (cases "skip_ws r1") auto
  from h sk c kc sk2 have d: "d = CHR '':''"
    by (auto split: if_splits)
  from h sk c kc sk2 d obtain v r3 where hv: "json_parse_value m r2 = Some (v, r3)"
    by (auto split: option.splits)
  from h sk c kc sk2 d hv obtain e r4 where sk3: "skip_ws r3 = e # r4"
    by (cases "skip_ws r3") auto
  from h sk c kc sk2 d hv sk3
  have rest: "(e = CHR '','' \<and> cons_parsed (k, v) (json_parse_members m r4) = Some (ms, r))
              \<or> (e = CHR ''}'' \<and> ms = [(k, v)] \<and> r = r4)"
    by (auto split: if_splits)
  have l0: "length r0 < length s" and l2: "length r2 < length r1" and l4: "length r4 < length r3"
    using sk sk2 sk3 by (blast intro: skip_ws_Cons_length)+
  have l1: "length r1 < length r0"
    using json_parse_chars_length [OF kc] by simp
  have l3: "length r3 < length r2"
    using IHv [OF hv] ..
  have "length r < length s
        \<and> (\<forall>n. length s - length r \<le> Suc n \<longrightarrow> json_parse_members (Suc n) s = Some (ms, r))"
    using rest
  proof
    assume "e = CHR '','' \<and> cons_parsed (k, v) (json_parse_members m r4) = Some (ms, r)"
    then obtain ms' where e: "e = CHR '',''" and hm: "json_parse_members m r4 = Some (ms', r)"
      and ms: "ms = (k, v) # ms'"
      by (auto dest!: cons_parsed_Some)
    have lr: "length r < length r4"
      using IHm [OF hm] ..
    have "json_parse_members (Suc n) s = Some (ms, r)" if "length s - length r \<le> Suc n" for n
    proof -
      have "json_parse_value n r2 = Some (v, r3)"
        using IHv [OF hv] that l0 l1 l2 l4 lr by simp
      moreover have "json_parse_members n r4 = Some (ms', r)"
        using IHm [OF hm] that l0 l1 l2 l3 l4 by simp
      ultimately show ?thesis
        using sk c kc sk2 d sk3 e ms by (simp add: cons_parsed_def)
    qed
    then show ?thesis
      using lr l0 l1 l2 l3 l4 by simp
  next
    assume "e = CHR ''}'' \<and> ms = [(k, v)] \<and> r = r4"
    then have e: "e = CHR ''}''" and ms: "ms = [(k, v)]" and r: "r = r4"
      by simp_all
    have "json_parse_members (Suc n) s = Some (ms, r)" if "length s - length r \<le> Suc n" for n
    proof -
      have "json_parse_value n r2 = Some (v, r3)"
        using IHv [OF hv] that l0 l1 l2 l4 r by simp
      then show ?thesis
        using sk c kc sk2 d sk3 e ms r by simp
    qed
    then show ?thesis
      using r l0 l1 l2 l3 l4 by simp
  qed
  then show ?thesis
    by (rule fuel_from_Suc)
qed

text \<open>Every parse some fuel finds is found with as much fuel as the characters it
  consumes, and consumes at least one character.\<close>

lemma json_parse_fuel_bound:
  "(\<forall>s v r. json_parse_value m s = Some (v, r) \<longrightarrow> length r < length s
       \<and> (\<forall>n. length s - length r \<le> n \<longrightarrow> json_parse_value n s = Some (v, r)))
   \<and> (\<forall>s vs r. json_parse_elems m s = Some (vs, r) \<longrightarrow> length r < length s
       \<and> (\<forall>n. length s - length r \<le> n \<longrightarrow> json_parse_elems n s = Some (vs, r)))
   \<and> (\<forall>s ms r. json_parse_members m s = Some (ms, r) \<longrightarrow> length r < length s
       \<and> (\<forall>n. length s - length r \<le> n \<longrightarrow> json_parse_members n s = Some (ms, r)))"
proof (induction m)
  case 0
  then show ?case by simp
next
  case (Suc m)
  then have IHv: "\<And>s v r. json_parse_value m s = Some (v, r) \<Longrightarrow> length r < length s
               \<and> (\<forall>n. length s - length r \<le> n \<longrightarrow> json_parse_value n s = Some (v, r))"
    and IHe: "\<And>s vs r. json_parse_elems m s = Some (vs, r) \<Longrightarrow> length r < length s
               \<and> (\<forall>n. length s - length r \<le> n \<longrightarrow> json_parse_elems n s = Some (vs, r))"
    and IHm: "\<And>s ms r. json_parse_members m s = Some (ms, r) \<Longrightarrow> length r < length s
               \<and> (\<forall>n. length s - length r \<le> n \<longrightarrow> json_parse_members n s = Some (ms, r))"
    by blast+
  show ?case
    using json_parse_value_fuel [OF IHe IHm] json_parse_elems_fuel [OF IHv IHe]
      json_parse_members_fuel [OF IHv IHm]
    by blast
qed

lemma json_parse_value_enough:
  assumes "json_parse_value m s = Some (v, r)" and "length s < n"
  shows "json_parse_value n s = Some (v, r)"
proof -
  have "length r < length s \<and> (\<forall>n. length s - length r \<le> n \<longrightarrow> json_parse_value n s = Some (v, r))"
    using conjunct1 [OF json_parse_fuel_bound [of m]] assms(1) by blast
  with assms(2) show ?thesis
    by simp
qed

text \<open>\<open>json_parse\<close> is the parser with unbounded fuel: it accepts a text exactly when
  some fuel parses one value from it followed by whitespace only.\<close>

theorem json_parse_complete:
  "json_parse s = Some v \<longleftrightarrow> (\<exists>m r. json_parse_value m s = Some (v, r) \<and> skip_ws r = [])"
proof
  assume "json_parse s = Some v"
  then show "\<exists>m r. json_parse_value m s = Some (v, r) \<and> skip_ws r = []"
  proof (cases "json_parse_value (Suc (length s)) s")
    case (Some p)
    with \<open>json_parse s = Some v\<close> show ?thesis
      unfolding json_parse_def by (cases p) (auto split: if_splits simp del: json_parse_value.simps)
  qed (simp add: json_parse_def del: json_parse_value.simps)
next
  assume "\<exists>m r. json_parse_value m s = Some (v, r) \<and> skip_ws r = []"
  then obtain m r where p: "json_parse_value m s = Some (v, r)" and w: "skip_ws r = []"
    by blast
  have "json_parse_value (Suc (length s)) s = Some (v, r)"
    using p by (rule json_parse_value_enough) simp
  with w show "json_parse s = Some v"
    by (simp add: json_parse_def del: json_parse_value.simps)
qed

end
