(* ===== verification/Draft.thy ===== *)
theory Draft
  imports Controller JsonFuel
begin

text \<open>
  The effects of \<open>FieldBuilderForm\<close> (\<open>src/src/components/FieldBuilderForm.js\<close>): the
  persistence effect, which stores the JSON text of the four editable fields in
  \<open>localStorage\<close> under \<open>formData\<close> (\<open>persistDraft\<close>) after a render whose editable
  fields differ from the previous render's (\<open>commit\<close>, the dependency list
  \<open>[label, choices, defaultValue, displayAlpha]\<close>), and the four effects that run at
  mount in their source order: reading the stored draft (\<open>loadDraft\<close>), persisting,
  fetching the default definition (\<open>fetchDefault\<close>) and the snapshot for Cancel
  (\<open>initSnapshot\<close>), composed by \<open>mount\<close>. The lemmas show that a stored draft
  reads back to the fields it was written from, that the fetched definition overwrites a
  restored draft in the same batch, and when the mount fails.
\<close>

subsection \<open>Draft persistence and mounting\<close>

text \<open>\<open>JSON.stringify({label, choices, defaultValue, displayAlpha})\<close>, the text the
  persistence effect stores under the key \<open>formData\<close>.\<close>

definition form_data_json :: "form_data \<Rightarrow> json" where
  "form_data_json d =
     JObject [(''label'', JString (data_label d)), (''choices'', JString (data_choices d)),
              (''defaultValue'', JString (data_defaultValue d)),
              (''displayAlpha'', JBool (data_displayAlpha d))]"

definition persistDraft :: "form_state \<Rightarrow> js_string" where
  "persistDraft s = json_stringify (form_data_json (form_fields s))"

text \<open>After a render the persistence effect runs when one of its four dependencies
  changed since the previous render, and overwrites the stored draft.\<close>

definition commit :: "form_state \<Rightarrow> form_state \<Rightarrow> js_string option \<Rightarrow> js_string option" where
  "commit prev next stored =
     (if form_fields next = form_fields prev then stored else Some (persistDraft next))"

text \<open>The first effect throws when the stored text is not JSON (\<open>SyntaxError\<close>) or is
  the JSON \<open>null\<close>, whose properties cannot be read (\<open>TypeError\<close>).\<close>

datatype mount_error = Draft_syntax_error | Draft_null_property

text \<open>\<open>setLabel(data.label)\<close> and the three others, for the properties of the parsed
  draft that hold a string (a Boolean for \<open>displayAlpha\<close>); a property that is missing
  or of another type is not representable in the model's state and its setter call is
  left out.\<close>

definition draft_sets :: "json \<Rightarrow> set_action list" where
  "draft_sets data =
     (case json_get data ''label'' of Some (JString v) \<Rightarrow> [SetLabel v] | _ \<Rightarrow> [])
     @ (case json_get data ''choices'' of Some (JString v) \<Rightarrow> [SetChoices v] | _ \<Rightarrow> [])
     @ (case json_get data ''defaultValue'' of Some (JString v) \<Rightarrow> [SetDefaultValue v] | _ \<Rightarrow> [])
     @ (case json_get data ''displayAlpha'' of Some (JBool v) \<Rightarrow> [SetDisplayAlpha v] | _ \<Rightarrow> [])"

text \<open>The first effect: read the stored draft; an absent or empty text is skipped.\<close>

definition loadDraft :: "js_string option \<Rightarrow> mount_error + set_action list" where
  "loadDraft saved =
     (case saved of
        None \<Rightarrow> Inr []
      | Some txt \<Rightarrow>
          if txt = [] then Inr []
          else (case json_parse txt of
                  None \<Rightarrow> Inl Draft_syntax_error
                | Some JNull \<Rightarrow> Inl Draft_null_property
                | Some data \<Rightarrow> Inr (draft_sets data)))"

text \<open>The third effect: the fields from \<open>FieldService.getField()\<close>, the choices
  joined with newlines.\<close>

definition fetchDefault :: "set_action list" where
  "fetchDefault =
     (let defaultData = getField None
      in [SetLabel (fd_label defaultData), SetChoices (js_join NL (fd_choices defaultData)),
          SetDefaultValue (fd_default defaultData), SetDisplayAlpha (fd_displayAlpha defaultData)])"

text \<open>The fourth effect: the same definition fetched again, stored as
  \<open>initialData\<close> and into the four fields.\<close>

definition initSnapshot :: "set_action list" where
  "initSnapshot =
     (let defaultData = getField None;
          formattedChoices = js_join NL (fd_choices defaultData)
      in [SetInitialData
            \<lparr>data_label = fd_label defaultData, data_choices = formattedChoices,
             data_defaultValue = fd_default defaultData,
             data_displayAlpha = fd_displayAlpha defaultData\<rparr>,
          SetLabel (fd_label defaultData), SetChoices formattedChoices,
          SetDefaultValue (fd_default defaultData), SetDisplayAlpha (fd_displayAlpha defaultData)])"

text \<open>Mounting: the first render has the initial state; its four effects run in source
  order, the persistence effect writing the initial fields, and their setter calls form
  one batch; after the second render the persistence effect runs again if the fields
  changed. The argument is the text stored under \<open>formData\<close> before mounting.\<close>

definition mount :: "js_string option \<Rightarrow> mount_error + form_state \<times> js_string option" where
  "mount saved =
     (case loadDraft saved of
        Inl e \<Rightarrow> Inl e
      | Inr draftSets \<Rightarrow>
          (let s0 = initial_form_state;
               stored = Some (persistDraft s0);
               s1 = apply_sets s0 (draftSets @ fetchDefault @ initSnapshot)
           in Inr (s1, commit s0 s1 stored)))"

text \<open>The snapshot the fourth effect stores in \<open>initialData\<close>.\<close>

definition default_form_data :: form_data where
  "default_form_data =
     \<lparr>data_label = fd_label (getField None), data_choices = js_join NL (fd_choices (getField None)),
      data_defaultValue = fd_default (getField None),
      data_displayAlpha = fd_displayAlpha (getField None)\<rparr>"

text \<open>The setter calls that only write one of the four editable fields.\<close>

fun is_field_set :: "set_action \<Rightarrow> bool" where
  "is_field_set (SetLabel v) = True"
| "is_field_set (SetChoices v) = True"
| "is_field_set (SetDefaultValue v) = True"
| "is_field_set (SetDisplayAlpha v) = True"
| "is_field_set _ = False"

subsection \<open>Draft persistence\<close>

lemma persistDraft_not_Nil [simp]: "persistDraft s \<noteq> []"
  by (simp add: persistDraft_def form_data_json_def)

lemma draft_sets_form_data_json [simp]:
  "draft_sets (form_data_json d) = set_fields d"
  by (simp add: draft_sets_def form_data_json_def json_get_def set_fields_def)

lemma form_data_json_no_numbers [simp]: "json_no_numbers (form_data_json d)"
  by (simp add: form_data_json_def)

lemma loadDraft_parsed:
  "txt \<noteq> [] \<Longrightarrow> json_parse txt = Some v \<Longrightarrow> v \<noteq> JNull \<Longrightarrow>
     loadDraft (Some txt) = Inr (draft_sets v)"
  by (cases v) (simp_all add: loadDraft_def)

lemma loadDraft_persistDraft_eq:
  "loadDraft (Some (persistDraft s)) = Inr (set_fields (form_fields s))"
proof -
  have "json_parse (persistDraft s) = Some (form_data_json (form_fields s))"
    by (simp add: persistDraft_def json_parse_stringify)
  moreover have "form_data_json (form_fields s) \<noteq> JNull"
    by (simp add: form_data_json_def)
  ultimately show ?thesis
    by (simp add: loadDraft_parsed)
qed

text \<open>C17. Reading back a draft the persistence effect wrote restores the four editable
  fields exactly (the mount's later effects aside).\<close>

theorem loadDraft_persistDraft:
  "\<exists>as. loadDraft (Some (persistDraft s)) = Inr as \<and> form_fields (apply_sets t as) = form_fields s"
  by (simp add: loadDraft_persistDraft_eq)


subsection \<open>Mounting\<close>

text \<open>The rules that evaluate a mount with concrete stored text.\<close>

lemmas mount_simps = mount_def loadDraft_def Let_def initSnapshot_def fetchDefault_def getField_def
  initial_form_state_def commit_def form_fields_def

lemma fetchDefault_eq: "fetchDefault = set_fields default_form_data"
  by (simp add: fetchDefault_def default_form_data_def set_fields_def Let_def)

lemma apply_sets_field_sets_overwritten:
  "\<forall>x \<in> set ds. is_field_set x \<Longrightarrow> apply_sets (apply_sets s ds) (set_fields d) = apply_sets s (set_fields d)"
proof (induction ds arbitrary: s)
  case Nil
  then show ?case by simp
next
  case (Cons x ds)
  then have "apply_sets (apply_sets s (x # ds)) (set_fields d) = apply_sets (apply_set s x) (set_fields d)"
    by simp
  also have "\<dots> = apply_sets s (set_fields d)"
    using Cons.prems by (cases x) (simp_all add: set_fields_def)
  finally show ?case .
qed

lemma draft_sets_field_sets: "\<forall>x \<in> set (draft_sets j). is_field_set x"
  unfolding draft_sets_def set_append ball_Un
  by (intro conjI; auto split: option.split json.split)

lemma loadDraft_field_sets: "loadDraft saved = Inr ds \<Longrightarrow> \<forall>x \<in> set ds. is_field_set x"
  using draft_sets_field_sets
  by (auto simp: loadDraft_def split: option.splits if_splits json.splits)

lemma mount_field_sets:
  assumes "loadDraft saved = Inr ds"
  shows "mount saved =
           (let s1 = apply_sets (apply_sets initial_form_state (set_fields default_form_data)) initSnapshot
            in Inr (s1, commit initial_form_state s1 (Some (persistDraft initial_form_state))))"
  using assms loadDraft_field_sets [OF assms]
  by (simp add: mount_def fetchDefault_eq apply_sets_field_sets_overwritten)

lemma mount_draft_irrelevant: "loadDraft saved = Inr ds \<Longrightarrow> mount saved = mount None"
  by (simp only: mount_field_sets loadDraft_def option.case)

lemma mount_None_Inr: "\<exists>r. mount None = Inr r"
  by (simp add: mount_def loadDraft_def Let_def)

text \<open>C6. Whatever draft is stored, a successful mount ends in the state of a mount with
  nothing stored: the draft is read but its fields are overwritten in the same batch.\<close>

theorem mount_ignores_draft: "mount saved = Inr r \<Longrightarrow> mount None = Inr r"
proof -
  assume m: "mount saved = Inr r"
  then obtain ds where "loadDraft saved = Inr ds"
    by (cases "loadDraft saved") (simp_all add: mount_def)
  then have "mount saved = mount None" by (rule mount_draft_irrelevant)
  with m show ?thesis by simp
qed

theorem mount_ignores_draft_witness:
  "let saved = Some (persistDraft (initial_form_state\<lparr>label := ''Region'', choices := ''Asia'',
                                                     defaultValue := ''Asia''\<rparr>))
   in \<exists>r. mount saved = Inr r \<and> mount None = Inr r \<and> label (fst r) = ''Sales region''"
proof -
  let ?t = "initial_form_state\<lparr>label := ''Region'', choices := ''Asia'', defaultValue := ''Asia''\<rparr>"
  have "\<exists>r. mount None = Inr r \<and> label (fst r) = ''Sales region''"
    by (simp add: mount_simps)
  then obtain r where r: "mount None = Inr r" and l: "label (fst r) = ''Sales region''"
    by blast
  have "mount (Some (persistDraft ?t)) = mount None"
    using loadDraft_persistDraft_eq by (rule mount_draft_irrelevant)
  with r have "mount (Some (persistDraft ?t)) = Inr r" by simp
  then show ?thesis using mount_ignores_draft [of "Some (persistDraft ?t)" r] l
    by (cases r) (simp add: Let_def)
qed

text \<open>C18. A non-empty stored text that is not JSON makes the first mount effect throw,
  and the page does not mount.\<close>

theorem mount_rejects_malformed:
  "txt \<noteq> [] \<Longrightarrow> json_parse txt = None \<Longrightarrow> mount (Some txt) = Inl Draft_syntax_error"
  by (simp add: mount_def loadDraft_def)

theorem mount_rejects_malformed_witness:
  "''{'' \<noteq> [] \<and> json_parse ''{'' = None \<and> mount (Some ''{'') = Inl Draft_syntax_error"
proof -
  have p: "json_parse ''{'' = None" by (simp add: json_parse_def is_json_ws_def)
  show ?thesis using mount_rejects_malformed [OF _ p] p by simp
qed

lemma mount_Inl_iff: "mount saved = Inl e \<longleftrightarrow> loadDraft saved = Inl e"
  by (simp add: mount_def Let_def split: sum.split)

text \<open>C26. The fuel given to the model of \<open>JSON.parse\<close> never runs out: mounting with
  a stored text fails with the \<open>SyntaxError\<close> exactly when the text is non-empty and no
  amount of fuel parses it as one JSON value followed by whitespace.\<close>

theorem mount_syntax_error_iff:
  "mount (Some txt) = Inl Draft_syntax_error
   \<longleftrightarrow> txt \<noteq> [] \<and> \<not> (\<exists>m v r. json_parse_value m txt = Some (v, r) \<and> skip_ws r = [])"
proof -
  have "mount (Some txt) = Inl Draft_syntax_error \<longleftrightarrow> txt \<noteq> [] \<and> json_parse txt = None"
    by (auto simp: mount_Inl_iff loadDraft_def split: option.splits json.splits)
  also have "json_parse txt = None
             \<longleftrightarrow> \<not> (\<exists>m v r. json_parse_value m txt = Some (v, r) \<and> skip_ws r = [])"
    using json_parse_complete [of "txt"] by (metis not_None_eq)
  finally show ?thesis .
qed

theorem mount_syntax_error_iff_witness:
  "mount (Some ''{'') = Inl Draft_syntax_error
   \<and> \<not> (\<exists>m v r. json_parse_value m ''{'' = Some (v, r) \<and> skip_ws r = [])"
proof -
  have "mount (Some ''{'') = Inl Draft_syntax_error"
    by (simp add: mount_def loadDraft_def json_parse_def is_json_ws_def)
  then show ?thesis
    using mount_syntax_error_iff [of "''{''"] by simp
qed

text \<open>The fetched definition passes validation and its choices text contains its default
  value.\<close>

lemma default_form_data_valid:
  "validate_errors (data_label default_form_data) (data_choices default_form_data) = []
   \<and> js_includes (data_choices default_form_data) (data_defaultValue default_form_data)"
  by (simp add: default_form_data_def getField_def validate_errors_def js_set_size_def max_choices_def)

lemma mount_null_draft: "mount (Some ''null'') = Inl Draft_null_property"
  by (simp add: mount_def loadDraft_def json_parse_def is_json_ws_def)

end
