(* ===== verification/Runtime.thy ===== *)
theory Runtime
  imports Draft
begin

text \<open>
  The running page: the form controller together with \<open>localStorage\<close>, the saves in
  flight and what the service has sent and logged. Events are the user's actions, the
  mount, and the settling of one save in flight (with the network's outcome as an
  input); \<open>app_step\<close> gives the state after one event or the error that stops the
  page, and \<open>app_reachable\<close> is the set of states some sequence of events reaches from
  a page about to mount, whatever \<open>localStorage\<close> held. Each handler's setter calls are
  applied as one batch, followed by the persistence effect (\<open>commit\<close>). The
  multi-select checkbox is uncontrolled: its checked state lives in the DOM
  (\<open>multiSelect\<close>), a click toggles it, and no handler or effect reads it.
\<close>

subsection \<open>State and events\<close>

record app =
  form :: form_state
  storage :: "js_string option"
  mounted :: bool
  pending :: "save_data list"
  requests :: "http_request list"
  console :: "console_entry list"
  multiSelect :: bool

datatype event =
    Mount
  | LabelInput js_string
  | DefaultValueInput js_string
  | ChoicesInput js_string
  | OrderSelect js_string
  | SaveClick
  | ClearClick
  | CancelClick
  | SaveSettled nat fetch_outcome
  | MultiSelectToggle

datatype app_error = Mount_failed mount_error | Not_mounted | Already_mounted | No_such_save

definition app_init :: "js_string option \<Rightarrow> app" where
  "app_init saved =
     \<lparr>form = initial_form_state, storage = saved, mounted = False,
      pending = [], requests = [], console = [], multiSelect = False\<rparr>"

subsection \<open>Steps\<close>

text \<open>The setter calls and \<open>saveField\<close> calls of the handler an event triggers; a
  settled save runs the \<open>finally\<close> callback of \<open>handleSubmit\<close>; the checkbox has
  no handler.\<close>

fun handler_of :: "event \<Rightarrow> form_state \<Rightarrow> set_action list \<times> save_data list" where
  "handler_of Mount s = ([], [])"
| "handler_of (LabelInput v) s = (onLabelChange v, [])"
| "handler_of (DefaultValueInput v) s = (onDefaultValueChange v, [])"
| "handler_of (ChoicesInput v) s = (onChoicesChange v, [])"
| "handler_of (OrderSelect v) s = (onOrderChange v, [])"
| "handler_of SaveClick s = handleSubmit s"
| "handler_of ClearClick s = (clearForm s, [])"
| "handler_of CancelClick s = (cancelAndReset s, [])"
| "handler_of (SaveSettled i out) s = ([SetIsLoading False], [])"
| "handler_of MultiSelectToggle s = ([], [])"

text \<open>Run a handler: \<open>saveField\<close> logs and sends its request while the handler runs;
  then the batch is applied and the persistence effect runs.\<close>

definition run_handler :: "app \<Rightarrow> set_action list \<times> save_data list \<Rightarrow> app" where
  "run_handler a h =
     (let f = form a;
          f' = apply_sets f (fst h);
          calls = map saveField_call (snd h)
      in a\<lparr>form := f', storage := commit f f' (storage a), pending := pending a @ snd h,
           requests := requests a @ map snd calls, console := console a @ concat (map fst calls)\<rparr>)"

definition settle_save :: "app \<Rightarrow> nat \<Rightarrow> fetch_outcome \<Rightarrow> app" where
  "settle_save a i out =
     run_handler
       (a\<lparr>pending := take i (pending a) @ drop (Suc i) (pending a),
          console := console a @ fst (saveField_settle out)\<rparr>)
       (handler_of (SaveSettled i out) (form a))"

fun app_step :: "app \<Rightarrow> event \<Rightarrow> app_error + app" where
  "app_step a Mount =
     (if mounted a then Inl Already_mounted
      else (case mount (storage a) of
              Inl e \<Rightarrow> Inl (Mount_failed e)
            | Inr (f, st) \<Rightarrow> Inr (a\<lparr>form := f, storage := st, mounted := True\<rparr>)))"
| "app_step a (SaveSettled i out) =
     (if \<not> mounted a then Inl Not_mounted
      else if i < length (pending a) then Inr (settle_save a i out)
      else Inl No_such_save)"
| "app_step a MultiSelectToggle =
     (if mounted a then Inr (a\<lparr>multiSelect := \<not> multiSelect a\<rparr>) else Inl Not_mounted)"
| "app_step a e =
     (if mounted a then Inr (run_handler a (handler_of e (form a))) else Inl Not_mounted)"

fun app_run :: "app \<Rightarrow> event list \<Rightarrow> app_error + app" where
  "app_run a [] = Inr a"
| "app_run a (e # es) = (case app_step a e of Inl err \<Rightarrow> Inl err | Inr a' \<Rightarrow> app_run a' es)"

inductive app_reachable :: "app \<Rightarrow> bool" where
  init: "app_reachable (app_init saved)"
| step: "app_reachable a \<Longrightarrow> app_step a e = Inr a' \<Longrightarrow> app_reachable a'"

text \<open>The contract the service's callers are meant to keep: a saved field has a
  label, no repeated choice and at most fifty choices.\<close>

definition payload_ok :: "save_data \<Rightarrow> bool" where
  "payload_ok d \<longleftrightarrow> sd_label d \<noteq> [] \<and> distinct (sd_choices d) \<and> length (sd_choices d) \<le> 50"

definition app_inv :: "app \<Rightarrow> bool" where
  "app_inv a \<longleftrightarrow>
     (mounted a \<longrightarrow> storage a = Some (persistDraft (form a))
                    \<and> initialData (form a) = default_form_data)
     \<and> (\<forall>d \<in> set (pending a). payload_ok d)
     \<and> (\<forall>r \<in> set (requests a). \<exists>d. payload_ok d \<and> r = snd (saveField_call d))"

subsection \<open>Runs\<close>

lemma app_run_reachable:
  "app_reachable a \<Longrightarrow> app_run a es = Inr a' \<Longrightarrow> app_reachable a'"
proof (induction es arbitrary: a)
  case Nil
  then show ?case by simp
next
  case (Cons e es)
  then show ?case by (auto intro: app_reachable.step split: sum.splits)
qed

lemma app_run_append:
  "app_run a (es @ fs) = (case app_run a es of Inl err \<Rightarrow> Inl err | Inr b \<Rightarrow> app_run b fs)"
  by (induction es arbitrary: a) (auto split: sum.split)

text \<open>The rules that evaluate a run of concrete events from a concrete page.\<close>

lemmas run_simps = mount_simps app_init_def run_handler_def handler_simps validate_errors_def
  js_set_size_def max_choices_def settle_save_def

subsection \<open>One step keeps the invariant\<close>

lemma persistDraft_form_fields:
  "form_fields s = form_fields t \<Longrightarrow> persistDraft s = persistDraft t"
  by (simp add: persistDraft_def)

lemma commit_sync:
  "stored = Some (persistDraft prev) \<Longrightarrow> commit prev next stored = Some (persistDraft next)"
  by (auto simp: commit_def dest: persistDraft_form_fields)

lemma initialData_apply_sets:
  "\<forall>v. SetInitialData v \<notin> set as \<Longrightarrow> initialData (apply_sets s as) = initialData s"
proof (induction as arbitrary: s)
  case Nil
  then show ?case by simp
next
  case (Cons x as)
  then show ?case by (cases x) auto
qed

lemma initSnapshot_eq:
  "initSnapshot = SetInitialData default_form_data # set_fields default_form_data"
  by (simp add: initSnapshot_def default_form_data_def set_fields_def Let_def)

lemma handler_of_initialData: "SetInitialData v \<notin> set (fst (handler_of e s))"
  by (cases e)
    (simp_all add: handler_simps)

lemma submit_payload_ok:
  "validate_errors (label s) (choices s) = [] \<Longrightarrow> payload_ok (submit_payload s)"
  by (simp add: payload_ok_def submit_payload_def validate_errors_Nil_iff max_choices_def)

lemma handler_of_payload_ok: "d \<in> set (snd (handler_of e s)) \<Longrightarrow> payload_ok d"
  by (cases e) (auto simp: handleSubmit_eq submit_payload_ok split: if_splits)

lemma run_handler_inv:
  assumes "app_inv a" and "mounted a"
    and "\<forall>d \<in> set (snd h). payload_ok d" and "\<forall>v. SetInitialData v \<notin> set (fst h)"
  shows "app_inv (run_handler a h)"
  using assms
  by (auto simp: app_inv_def run_handler_def Let_def saveField_call_def commit_sync
      initialData_apply_sets)

lemma mount_result:
  assumes "mount saved = Inr (f, st)"
  shows "st = Some (persistDraft f) \<and> form_fields f = default_form_data
         \<and> initialData f = default_form_data"
proof -
  from assms obtain ds where "loadDraft saved = Inr ds"
    and f: "f = apply_sets initial_form_state (ds @ fetchDefault @ initSnapshot)"
    and st: "st = commit initial_form_state f (Some (persistDraft initial_form_state))"
    by (auto simp: mount_def Let_def split: sum.splits)
  have "form_fields f = default_form_data"
    using f by (simp add: initSnapshot_eq)
  moreover have "initialData f = default_form_data"
    using f by (simp add: initSnapshot_eq set_fields_def)
  moreover have "st = Some (persistDraft f)"
    using st by (simp add: commit_sync)
  ultimately show ?thesis by blast
qed

lemma app_step_handler:
  assumes "e \<noteq> Mount" and "\<forall>i out. e \<noteq> SaveSettled i out" and "e \<noteq> MultiSelectToggle"
  shows "app_step a e =
           (if mounted a then Inr (run_handler a (handler_of e (form a))) else Inl Not_mounted)"
  using assms by (cases e) simp_all

lemma app_step_inv:
  assumes "app_inv a" and "app_step a e = Inr a'"
  shows "app_inv a'"
proof (cases "e = Mount \<or> (\<exists>i out. e = SaveSettled i out) \<or> e = MultiSelectToggle")
  case True
  then consider "e = Mount" | i out where "e = SaveSettled i out" | "e = MultiSelectToggle"
    by blast
  then show ?thesis
  proof cases
    case 1
    with assms obtain f st where "mount (storage a) = Inr (f, st)"
      and a': "a' = a\<lparr>form := f, storage := st, mounted := True\<rparr>"
      by (auto split: if_splits sum.splits)
    then have "st = Some (persistDraft f) \<and> initialData f = default_form_data"
      using mount_result by blast
    with assms(1) a' show ?thesis by (auto simp: app_inv_def)
  next
    case (2 i out)
    let ?b = "a\<lparr>pending := take i (pending a) @ drop (Suc i) (pending a),
                 console := console a @ fst (saveField_settle out)\<rparr>"
    from assms 2 have m: "mounted a" and a': "a' = settle_save a i out"
      by (auto split: if_splits)
    have "app_inv ?b"
      using assms(1) by (auto simp: app_inv_def dest: in_set_takeD in_set_dropD)
    then show ?thesis
      using m a' by (auto simp: settle_save_def intro!: run_handler_inv)
  next
    case 3
    with assms show ?thesis
      by (auto simp: app_inv_def split: if_splits)
  qed
next
  case False
  with assms(2) have "mounted a" and a': "a' = run_handler a (handler_of e (form a))"
    by (simp_all add: app_step_handler split: if_splits)
  then show ?thesis
    using assms(1) handler_of_payload_ok handler_of_initialData
    by (auto intro!: run_handler_inv simp del: handler_of.simps)
qed

lemma app_reachable_inv: "app_reachable a \<Longrightarrow> app_inv a"
proof (induction rule: app_reachable.induct)
  case (init saved)
  then show ?case by (simp add: app_inv_def app_init_def)
next
  case (step a e a')
  then show ?case by (blast intro: app_step_inv)
qed

lemma app_step_keeps_loading:
  assumes "app_step a e = Inr b" and "e \<noteq> SaveClick" and "mounted a" and "pending a = []"
  shows "mounted b \<and> isLoading (form b) = isLoading (form a) \<and> pending b = []"
  using assms
  by (cases e) (auto simp: run_handler_def Let_def handler_simps split: if_splits sum.splits)

text \<open>Settling every save in flight, the first each time, empties the list and changes no
  editable field.\<close>

lemma settle_all:
  "mounted a \<Longrightarrow> length (pending a) = n \<Longrightarrow>
     \<exists>b. app_run a (replicate n (SaveSettled 0 out)) = Inr b \<and> mounted b \<and> pending b = []
         \<and> form_fields (form b) = form_fields (form a) \<and> initialData (form b) = initialData (form a)"
proof (induction n arbitrary: a)
  case 0
  then show ?case by simp
next
  case (Suc n)
  let ?a1 = "settle_save a 0 out"
  have s: "app_step a (SaveSettled 0 out) = Inr ?a1"
    using Suc.prems by simp
  have "mounted ?a1" and "length (pending ?a1) = n"
    and "form_fields (form ?a1) = form_fields (form a)" and "initialData (form ?a1) = initialData (form a)"
    using Suc.prems by (simp_all add: settle_save_def run_handler_def Let_def form_fields_def)
  with Suc.IH [of ?a1] s show ?case
    by auto
qed

subsection \<open>Saves and the console\<close>

lemma saveField_settle_length [simp]: "length (fst (saveField_settle out)) = Suc 0"
  by (simp add: saveField_settle_def split: fetch_outcome.split option.split)

lemma saveField_call_logs [simp]: "length (fst (saveField_call d)) = 2"
  by (simp add: saveField_call_def)

lemma length_concat_logs: "length (concat (map (fst \<circ> saveField_call) ds)) = 2 * length ds"
  by (induction ds) simp_all

text \<open>One step keeps the count of the console: two lines per \<open>saveField\<close> call and one
  per settled save.\<close>

lemma app_step_console:
  assumes "length (pending a) \<le> length (requests a)"
    and "length (console a) + length (pending a) = 3 * length (requests a)"
    and "app_step a e = Inr a'"
  shows "length (pending a') \<le> length (requests a')
         \<and> length (console a') + length (pending a') = 3 * length (requests a')"
proof (cases "\<exists>i out. e = SaveSettled i out")
  case True
  then obtain i out where e: "e = SaveSettled i out"
    by blast
  with assms(3) have "i < length (pending a)" and "a' = settle_save a i out"
    by (auto split: if_splits)
  with assms(1,2) show ?thesis
    by (simp add: settle_save_def run_handler_def Let_def) linarith
next
  case False
  with assms show ?thesis
    by (cases e) (auto simp: run_handler_def Let_def length_concat_logs split: if_splits sum.splits)
qed

subsection \<open>The multi-select checkbox\<close>

text \<open>The checkbox is uncontrolled: no step but its own toggle reads or writes its state.\<close>

lemma app_step_multiSelect_frame:
  "e \<noteq> MultiSelectToggle \<Longrightarrow>
     app_step (a\<lparr>multiSelect := x\<rparr>) e = map_sum id (\<lambda>b. b\<lparr>multiSelect := x\<rparr>) (app_step a e)"
  by (cases e) (auto simp: run_handler_def settle_save_def Let_def split: sum.split)

lemma app_run_multiSelect_frame:
  "MultiSelectToggle \<notin> set es \<Longrightarrow>
     app_run (a\<lparr>multiSelect := x\<rparr>) es = map_sum id (\<lambda>b. b\<lparr>multiSelect := x\<rparr>) (app_run a es)"
proof (induction es arbitrary: a)
  case Nil
  then show ?case by simp
next
  case (Cons e es)
  then show ?case
    by (auto simp: app_step_multiSelect_frame split: sum.split)
qed

end
