(* ===== verification/PageSpec.thy ===== *)
theory PageSpec
  imports Runtime
begin

text \<open>
  The contract of section 4.1 of the specification, as an abstract transition system,
  and the proof that the page implements it. The abstract state holds what section 4.1
  describes the operations by: the four editable fields, the validation messages, the
  snapshot kept for Cancel, the number of saves requested, whether the page is mounted,
  and, before mounting, the draft Initialize may read. The operations are written from the
  text of section 4.1, not from the code: Validate with the three rules as stated
  (\<open>spec_validate\<close>, with \<open>distinct\<close> for "no repeated entries"); Submit appending the
  default value as a new line when it is not a substring of the text; Clear and Cancel;
  Initialize as a nondeterministic choice, since section 4.1 leaves the order of the
  three startup effects open ("the last one to run wins"): the fields become the fetched
  definition or the stored draft. \<open>spec_step\<close> is an inductive relation with one rule per
  operation; \<open>spec_run\<close> chains it over a sequence of events.

  The abstraction \<open>page_abs\<close> leaves out the loading flag, the draft persisted after
  mounting and the contents of the payloads: on these the code departs from section 4.1
  (the flag is cleared before the save settles, Clear rewrites the draft, the payload
  carries the choices from before the append), as the findings record. On the rest the
  refinement theorem shows that every run of the page from any stored text is a run of
  the specification.
\<close>

subsection \<open>The draft Initialize may read\<close>

fun as_string :: "json option \<Rightarrow> js_string option" where
  "as_string (Some (JString s)) = Some s"
| "as_string _ = None"

fun as_bool :: "json option \<Rightarrow> bool option" where
  "as_bool (Some (JBool b)) = Some b"
| "as_bool _ = None"

text \<open>The draft schema of \<open>formData\<close> (section 6): label, choices and default value
  strings and a Boolean order flag.\<close>

definition decode_form_data :: "json \<Rightarrow> form_data option" where
  "decode_form_data v =
     (case (as_string (json_get v ''label''), as_string (json_get v ''choices''),
            as_string (json_get v ''defaultValue''), as_bool (json_get v ''displayAlpha'')) of
        (Some l, Some c, Some d, Some b) \<Rightarrow>
          Some \<lparr>data_label = l, data_choices = c, data_defaultValue = d, data_displayAlpha = b\<rparr>
      | _ \<Rightarrow> None)"

definition decode_draft :: "js_string option \<Rightarrow> form_data option" where
  "decode_draft st =
     (case st of
        None \<Rightarrow> None
      | Some t \<Rightarrow> (case json_parse t of None \<Rightarrow> None | Some v \<Rightarrow> decode_form_data v))"

subsection \<open>The specification\<close>

record spec_page =
  sp_mounted :: bool
  sp_fields :: form_data
  sp_errors :: "js_string list"
  sp_initial :: form_data
  sp_saves :: nat
  sp_draft :: "form_data option"

text \<open>Validate, as section 4.1 states its rules.\<close>

definition spec_validate :: "js_string \<Rightarrow> js_string \<Rightarrow> js_string list" where
  "spec_validate lbl chs =
     (if lbl = [] then [''Label is required.''] else [])
     @ (if distinct (js_split NL chs) then [] else [''Duplicate choices are not allowed.''])
     @ (if 50 < length (js_split NL chs) then [''There cannot be more than 50 choices.''] else [])"

definition spec_init :: "js_string option \<Rightarrow> spec_page" where
  "spec_init saved =
     \<lparr>sp_mounted = False,
      sp_fields = \<lparr>data_label = [], data_choices = [], data_defaultValue = [], data_displayAlpha = True\<rparr>,
      sp_errors = [],
      sp_initial = \<lparr>data_label = [], data_choices = [], data_defaultValue = [], data_displayAlpha = True\<rparr>,
      sp_saves = 0, sp_draft = decode_draft saved\<rparr>"

inductive spec_step :: "spec_page \<Rightarrow> event \<Rightarrow> spec_page \<Rightarrow> bool" where
  init_fetched:
    "\<not> sp_mounted p \<Longrightarrow>
     spec_step p Mount (p\<lparr>sp_mounted := True, sp_fields := default_form_data,
                          sp_initial := default_form_data, sp_draft := None\<rparr>)"
| init_draft:
    "\<not> sp_mounted p \<Longrightarrow> sp_draft p = Some d \<Longrightarrow>
     spec_step p Mount (p\<lparr>sp_mounted := True, sp_fields := d,
                          sp_initial := default_form_data, sp_draft := None\<rparr>)"
| edit_label:
    "sp_mounted p \<Longrightarrow> spec_step p (LabelInput v) (p\<lparr>sp_fields := (sp_fields p)\<lparr>data_label := v\<rparr>\<rparr>)"
| edit_default:
    "sp_mounted p \<Longrightarrow>
     spec_step p (DefaultValueInput v) (p\<lparr>sp_fields := (sp_fields p)\<lparr>data_defaultValue := v\<rparr>\<rparr>)"
| edit_choices:
    "sp_mounted p \<Longrightarrow> spec_step p (ChoicesInput v) (p\<lparr>sp_fields := (sp_fields p)\<lparr>data_choices := v\<rparr>\<rparr>)"
| edit_order:
    "sp_mounted p \<Longrightarrow>
     spec_step p (OrderSelect v)
       (p\<lparr>sp_fields := (sp_fields p)\<lparr>data_displayAlpha := (v = ''alphabetical'')\<rparr>\<rparr>)"
| submit_invalid:
    "sp_mounted p \<Longrightarrow> spec_validate (data_label (sp_fields p)) (data_choices (sp_fields p)) \<noteq> [] \<Longrightarrow>
     spec_step p SaveClick
       (p\<lparr>sp_errors := spec_validate (data_label (sp_fields p)) (data_choices (sp_fields p))\<rparr>)"
| submit_present:
    "sp_mounted p \<Longrightarrow> spec_validate (data_label (sp_fields p)) (data_choices (sp_fields p)) = [] \<Longrightarrow>
     sublist (data_defaultValue (sp_fields p)) (data_choices (sp_fields p)) \<Longrightarrow>
     spec_step p SaveClick (p\<lparr>sp_errors := [], sp_saves := Suc (sp_saves p)\<rparr>)"
| submit_append:
    "sp_mounted p \<Longrightarrow> spec_validate (data_label (sp_fields p)) (data_choices (sp_fields p)) = [] \<Longrightarrow>
     \<not> sublist (data_defaultValue (sp_fields p)) (data_choices (sp_fields p)) \<Longrightarrow>
     spec_step p SaveClick
       (p\<lparr>sp_fields := (sp_fields p)\<lparr>data_choices :=
                          data_choices (sp_fields p) @ NL # data_defaultValue (sp_fields p)\<rparr>,
          sp_errors := [], sp_saves := Suc (sp_saves p)\<rparr>)"
| clear:
    "sp_mounted p \<Longrightarrow>
     spec_step p ClearClick
       (p\<lparr>sp_fields := \<lparr>data_label = [], data_choices = [], data_defaultValue = [],
                        data_displayAlpha = True\<rparr>, sp_errors := []\<rparr>)"
| cancel:
    "sp_mounted p \<Longrightarrow> spec_step p CancelClick (p\<lparr>sp_fields := sp_initial p, sp_errors := []\<rparr>)"
| settle:
    "sp_mounted p \<Longrightarrow> spec_step p (SaveSettled i out) p"
| toggle:
    "sp_mounted p \<Longrightarrow> spec_step p MultiSelectToggle p"

code_pred spec_step .

inductive spec_run :: "spec_page \<Rightarrow> event list \<Rightarrow> spec_page \<Rightarrow> bool" where
  run_nil: "spec_run p [] p"
| run_cons: "spec_step p e q \<Longrightarrow> spec_run q es r \<Longrightarrow> spec_run p (e # es) r"

text \<open>The abstraction from the concrete page.\<close>

definition page_abs :: "app \<Rightarrow> spec_page" where
  "page_abs a =
     \<lparr>sp_mounted = mounted a, sp_fields = form_fields (form a),
      sp_errors = validationErrors (form a), sp_initial = initialData (form a),
      sp_saves = length (requests a),
      sp_draft = (if mounted a then None else decode_draft (storage a))\<rparr>"

subsection \<open>Facts the refinement uses\<close>

inductive_simps spec_step_Mount: "spec_step p Mount q"
inductive_simps spec_step_SaveClick: "spec_step p SaveClick q"

lemma mount_flags:
  assumes "mount saved = Inr (f, st)"
  shows "validationErrors f = [] \<and> isLoading f = False"
proof -
  from assms obtain ds where ds: "loadDraft saved = Inr ds"
    and f: "f = apply_sets initial_form_state (ds @ fetchDefault @ initSnapshot)"
    by (auto simp: mount_def Let_def split: sum.splits)
  have fs: "\<forall>x \<in> set ds. is_field_set x"
    using ds by (rule loadDraft_field_sets)
  have keep: "\<forall>x \<in> set (ds @ fetchDefault @ initSnapshot). \<forall>s.
                validationErrors (apply_set s x) = validationErrors s \<and> isLoading (apply_set s x) = isLoading s"
  proof
    fix x
    assume "x \<in> set (ds @ fetchDefault @ initSnapshot)"
    then have "is_field_set x \<or> (\<exists>v. x = SetInitialData v)"
      using fs by (auto simp: fetchDefault_eq initSnapshot_eq set_fields_def)
    then show "\<forall>s. validationErrors (apply_set s x) = validationErrors s \<and> isLoading (apply_set s x) = isLoading s"
      by (cases x) auto
  qed
  have "validationErrors f = validationErrors initial_form_state"
    using f apply_sets_frame [of _ validationErrors] keep by simp
  moreover have "isLoading f = isLoading initial_form_state"
    using f apply_sets_frame [of _ isLoading] keep by simp
  ultimately show ?thesis
    by (simp add: initial_form_state_def)
qed



lemma validate_errors_spec: "validate_errors lbl chs = spec_validate lbl chs"
  by (simp add: validate_errors_def spec_validate_def Let_def js_set_size_distinct validation_msgs
      max_choices_def)

text \<open>Every step that succeeds leaves the page mounted, so a reachable page that is not
  mounted is the page before mounting.\<close>

lemma app_step_mounted: "app_step a e = Inr a' \<Longrightarrow> mounted a'"
  by (cases e) (auto simp: run_handler_def settle_save_def Let_def split: if_splits sum.splits)

lemma reachable_unmounted: "app_reachable a \<Longrightarrow> \<not> mounted a \<Longrightarrow> a = app_init (storage a)"
proof (induction rule: app_reachable.induct)
  case (init saved)
  then show ?case by (simp add: app_init_def)
next
  case (step a e a')
  then show ?case by (simp add: app_step_mounted)
qed

lemma form_data_eta [simp]:
  "\<lparr>data_label = data_label d, data_choices = data_choices d,
    data_defaultValue = data_defaultValue d, data_displayAlpha = data_displayAlpha d\<rparr> = d"
  by (cases d) simp

subsection \<open>Refinement\<close>

text \<open>One step of a reachable page is a step of the specification.\<close>

lemma app_step_refines:
  assumes "app_reachable a" and "app_step a e = Inr a'"
  shows "spec_step (page_abs a) e (page_abs a')"
proof (cases e)
  case Mount
  with assms(2) obtain f st where m: "mount (storage a) = Inr (f, st)" and um: "\<not> mounted a"
    and a': "a' = a\<lparr>form := f, storage := st, mounted := True\<rparr>"
    by (auto split: if_splits sum.splits)
  have "form a = form (app_init (storage a))"
    using reachable_unmounted [OF assms(1) um] by simp
  then have fa: "form a = initial_form_state"
    by (simp add: app_init_def)
  have "page_abs a' = (page_abs a)\<lparr>sp_mounted := True, sp_fields := default_form_data,
                          sp_initial := default_form_data, sp_draft := None\<rparr>"
    using mount_result [OF m] mount_flags [OF m] a' fa
    by (simp add: page_abs_def initial_form_state_def)
  moreover have "spec_step (page_abs a) Mount ((page_abs a)\<lparr>sp_mounted := True,
                  sp_fields := default_form_data, sp_initial := default_form_data, sp_draft := None\<rparr>)"
    using um by (intro spec_step.init_fetched) (simp add: page_abs_def)
  ultimately show ?thesis
    using Mount by simp
next
  case (SaveSettled i out)
  with assms(2) have "mounted a" and "a' = settle_save a i out"
    by (auto split: if_splits)
  then show ?thesis
    using SaveSettled spec_step.settle [of "page_abs a" i out]
    by (simp add: settle_save_def run_handler_def Let_def page_abs_def form_fields_def)
next
  case MultiSelectToggle
  with assms(2) have "mounted a" and "a' = a\<lparr>multiSelect := \<not> multiSelect a\<rparr>"
    by (auto split: if_splits)
  then show ?thesis
    using MultiSelectToggle spec_step.toggle [of "page_abs a"] by (simp add: page_abs_def)
next
  case (LabelInput v)
  with assms(2) have "mounted a" and "a' = run_handler a (onLabelChange v, [])"
    by (auto split: if_splits)
  then show ?thesis
    using LabelInput spec_step.edit_label [of "page_abs a" v]
    by (simp add: run_handler_def Let_def handler_simps page_abs_def form_fields_def)
next
  case (DefaultValueInput v)
  with assms(2) have "mounted a" and "a' = run_handler a (onDefaultValueChange v, [])"
    by (auto split: if_splits)
  then show ?thesis
    using DefaultValueInput spec_step.edit_default [of "page_abs a" v]
    by (simp add: run_handler_def Let_def handler_simps page_abs_def form_fields_def)
next
  case (ChoicesInput v)
  with assms(2) have "mounted a" and "a' = run_handler a (onChoicesChange v, [])"
    by (auto split: if_splits)
  then show ?thesis
    using ChoicesInput spec_step.edit_choices [of "page_abs a" v]
    by (simp add: run_handler_def Let_def handler_simps page_abs_def form_fields_def)
next
  case (OrderSelect v)
  with assms(2) have "mounted a" and "a' = run_handler a (onOrderChange v, [])"
    by (auto split: if_splits)
  then show ?thesis
    using OrderSelect spec_step.edit_order [of "page_abs a" v]
    by (simp add: run_handler_def Let_def handler_simps page_abs_def form_fields_def)
next
  case ClearClick
  with assms(2) have "mounted a" and "a' = run_handler a (clearForm (form a), [])"
    by (auto split: if_splits)
  then show ?thesis
    using ClearClick spec_step.clear [of "page_abs a"]
    by (simp add: run_handler_def Let_def handler_simps page_abs_def form_fields_def)
next
  case CancelClick
  with assms(2) have "mounted a" and "a' = run_handler a (cancelAndReset (form a), [])"
    by (auto split: if_splits)
  then show ?thesis
    using CancelClick spec_step.cancel [of "page_abs a"]
    by (simp add: run_handler_def Let_def handler_simps page_abs_def form_fields_def)
next
  case SaveClick
  with assms(2) have "mounted a" and "a' = run_handler a (handleSubmit (form a))"
    by (auto split: if_splits)
  then show ?thesis
    using SaveClick
    by (simp add: spec_step_SaveClick run_handler_def Let_def handleSubmit_eq page_abs_def
        form_fields_def validate_errors_spec js_includes_sublist)
qed

text \<open>C27. Refinement: every run of the page from any stored text, as long as no step
  fails, is a run of the specification of section 4.1 on the fields, the messages, the
  Cancel snapshot, the number of saves requested and the mounting.\<close>

theorem app_run_refines:
  "app_run (app_init saved) es = Inr a \<Longrightarrow> spec_run (spec_init saved) es (page_abs a)"
proof -
  have gen: "app_reachable b \<Longrightarrow> app_run b es = Inr a \<Longrightarrow> spec_run (page_abs b) es (page_abs a)" for b
  proof (induction es arbitrary: b)
    case Nil
    then show ?case by (simp add: spec_run.run_nil)
  next
    case (Cons e es)
    then obtain b' where s: "app_step b e = Inr b'" and r: "app_run b' es = Inr a"
      by (auto split: sum.splits)
    have "app_reachable b'"
      using Cons.prems(1) s by (rule app_reachable.step)
    then show ?case
      using app_step_refines [OF Cons.prems(1) s] Cons.IH r by (blast intro: spec_run.run_cons)
  qed
  have "page_abs (app_init saved) = spec_init saved"
    by (simp add: page_abs_def spec_init_def app_init_def initial_form_state_def form_fields_def
        empty_form_data_def)
  then show "app_run (app_init saved) es = Inr a \<Longrightarrow> spec_run (spec_init saved) es (page_abs a)"
    using gen [OF app_reachable.init] by metis
qed

theorem app_run_refines_witness:
  "\<exists>a. app_run (app_init None) [Mount, ChoicesInput ''Asia'', SaveClick, ClearClick] = Inr a
       \<and> spec_run (spec_init None) [Mount, ChoicesInput ''Asia'', SaveClick, ClearClick] (page_abs a)"
proof -
  obtain a where run: "app_run (app_init None) [Mount, ChoicesInput ''Asia'', SaveClick, ClearClick] = Inr a"
    by (simp add: run_simps)
  show ?thesis
    using app_run_refines [OF run] run by blast
qed

end
