(* ===== verification/Spec2Isabelle.thy ===== *)
theory Spec2Isabelle
  imports PageSpec
begin

text \<open>
  \<^bold>\<open>Field builder form: a verification development.\<close>

  The repository is a single React component, \<open>FieldBuilderForm\<close>
  (\<open>src/src/components/FieldBuilderForm.js\<close>), that edits the definition of a field
  (label, choices one per line, default value, display order), and a mock service
  \<open>FieldService\<close> (\<open>src/src/components/MockService.js\<close>) that returns a fixed field
  definition (\<open>getField\<close>) and posts an edited one to a remote endpoint
  (\<open>saveField\<close>). The component keeps a draft of the four editable fields in
  \<open>localStorage\<close> under the key \<open>formData\<close> as JSON text.

  \<^bold>\<open>Theories.\<close>
  \<^item> \<open>Prelude\<close>: the rule collections, the type \<open>js_string\<close> (a JavaScript string
    as a list of 8-bit code units) and generic list and subsequence facts.
  \<^item> \<open>JsString\<close>: the built-ins the component calls: \<open>js_split\<close>
    (\<open>split('\n')\<close>), \<open>js_join\<close> (\<open>join('\n')\<close>), \<open>js_includes\<close>
    (\<open>includes\<close>) and \<open>js_set_size\<close> (\<open>new Set(xs).size\<close>), with splitting a joined
    array and the equivalence of \<open>js_includes\<close> with the library's \<open>sublist\<close>.
  \<^item> \<open>Json\<close>: \<open>JSON.stringify\<close> and \<open>JSON.parse\<close> modelled from the JSON grammar
    (a number kept as the text of its literal), with the round trip
    \<open>json_parse_stringify\<close> for the number-free values the program writes. The
    parser takes fuel and \<open>json_parse\<close> gives it one unit per input character.
  \<^item> \<open>JsonFuel\<close>: that fuel is enough. Every parse consumes at least one character and
    is found again with as much fuel as the characters it consumes, so \<open>json_parse\<close>
    accepts exactly the texts some amount of fuel parses (\<open>json_parse_complete\<close>): the
    fuel bound never turns a valid draft into a \<open>SyntaxError\<close> (C26).
  \<^item> \<open>Validation\<close>: \<open>validate_errors\<close>, the rules of \<open>validateForm\<close>, each
    characterised exactly.
  \<^item> \<open>Service\<close>: \<open>getField\<close>, the request \<open>saveField\<close> sends
    (\<open>saveField_call\<close>) and what it does when \<open>fetch\<close> settles
    (\<open>saveField_settle\<close>, the network's outcome being an input).
  \<^item> \<open>Controller\<close>: the component's state (\<open>form_state\<close>, one field per
    \<open>useState\<close>), each setter call as a \<open>set_action\<close> applied in call order after the
    handler returns (React's batching: a handler reads the state of its render), the
    handlers \<open>handleSubmit\<close>, \<open>clearForm\<close>, \<open>cancelAndReset\<close> and the
    \<open>onChange\<close> handlers, and the view (\<open>render\<close>, \<open>submitButton_text\<close>).
  \<^item> \<open>Draft\<close>: the effects: the persistence effect (\<open>persistDraft\<close>, run by
    \<open>commit\<close> when a dependency changed) and the four mount effects in source order
    (\<open>loadDraft\<close>, \<open>fetchDefault\<close>, \<open>initSnapshot\<close>, composed by \<open>mount\<close>).
  \<^item> \<open>Runtime\<close>: the page as a state machine: \<open>app\<close> holds the component's state,
    the stored draft, the saves in flight, the requests sent, the console and the checked
    state of the uncontrolled multi-select checkbox (DOM state: the input has no
    \<open>checked\<close> prop and no handler); \<open>app_step\<close> runs one event (mount, input, click,
    checkbox toggle, a save settling) or returns the error that stops the page;
    \<open>app_reachable\<close> is the inductive set of states reachable from any stored text;
    \<open>app_inv\<close> is the invariant, proved for every reachable state by rule induction
    (\<open>app_reachable_inv\<close>).
  \<^item> \<open>PageSpec\<close>: the contract of section 4.1 of the specification as an
    abstract transition system, written from the text of section 4.1 and not from the
    code: \<open>spec_page\<close> holds the four fields, the messages, the Cancel snapshot, the
    number of saves requested, the mounting and, before mounting, the stored draft as a
    typed value; \<open>spec_step\<close> is an inductive relation with one rule per operation,
    validation by the three rules as stated (\<open>spec_validate\<close>, \<open>distinct\<close> for
    "no repeated entries"), the append test as the library's \<open>sublist\<close>, and
    Initialize nondeterministic (the fields become the fetched definition or the stored
    draft: section 4.1 leaves the order of the startup effects open). The abstraction
    \<open>page_abs\<close> leaves out the loading flag, the draft written after mounting and the
    contents of the payloads, where the code departs from section 4.1 (C3, C4, C25 and the
    findings). Every error-free run of the page from any stored text is a run of the
    specification (\<open>app_run_refines\<close>, C27).
  \<^item> This theory: the properties that span the components.

  \<^bold>\<open>What is shown.\<close> Every request the page ever sends carries a payload with a
  label, no repeated choice and at most fifty choices (C1). The stored draft always equals
  the JSON of the current fields once mounted (C5); a reload therefore always succeeds and,
  because the fetched definition overwrites the draft's fields in the same batch, yields
  exactly a fresh page (C6, C7): the draft is written but never restored. Submitting
  follows three branches (C2--C4); the payload of the appending branch carries the choices
  from before the append. The validation rules are characterised exactly (C8--C10), as
  are clear and cancel (C11--C13, C25). The loading flag: a settled save clears it (C14);
  after an invalid submit nothing but a later save clears it (C15); a submit is never
  blocked by saves in flight (C16); and it can always be cleared by Cancel and Save
  (C31). Drafts round-trip through JSON (C17); a malformed stored draft stops the mount
  (C18), and the JSON parser's fuel is enough (C26). The view after a submit and the
  order selector (C19, C20); the append of the default value and its consequences: the
  lines gain the default value (C21), fifty lines become fifty-one and fail the next
  validation (C22), the text changes exactly when the default value is not a substring
  (C23), and a default value found only inside a longer line is neither appended nor a
  choice (C24). The page refines the specification of section 4.1 (C27); the
  multi-select checkbox has no effect on anything the program reads, stores or sends
  (C28); each settled save logs one entry, the same for a network failure and for a 2xx
  reply that is not JSON (C29); and the console keeps count of calls and settlements
  (C30).

  \<^bold>\<open>Not modelled.\<close> Styling, the bootstrap and CSS imports, and the layout and
  class names of the JSX (no behaviour). React's development double invocation of effects,
  unmounting, and timing: saves settle in any order as events. Code units above 255 (a
  \<open>\u\<close> escape above \<open>00ff\<close> is rejected), and the text \<open>JSON.stringify\<close>
  gives a parsed number (the program never stringifies one; the model writes the
  literal back). A stored draft
  whose properties are missing or of another type: the component would store
  \<open>undefined\<close>; the model drops the setter call, which the later mount effects
  overwrite in both cases.
\<close>

section \<open>Properties of the running page\<close>

text \<open>C1. Every request the page has sent, in any reachable state, is the request \<open>saveField\<close> makes for a payload with a non-empty label, pairwise distinct choices and at most fifty choices.\<close>

theorem reachable_requests_valid:
  assumes "app_reachable a" and "r \<in> set (requests a)"
  shows "\<exists>d. r = snd (saveField_call d)
             \<and> sd_label d \<noteq> [] \<and> distinct (sd_choices d) \<and> length (sd_choices d) \<le> 50"
  using app_reachable_inv [OF assms(1)] assms(2) by (auto simp: app_inv_def payload_ok_def)

theorem reachable_requests_valid_witness:
  "\<exists>a. app_run (app_init None) [Mount, SaveClick] = Inr a \<and> app_reachable a \<and> requests a \<noteq> []
       \<and> (\<exists>d. hd (requests a) = snd (saveField_call d)
             \<and> sd_label d \<noteq> [] \<and> distinct (sd_choices d) \<and> length (sd_choices d) \<le> 50)"
proof -
  obtain a where run: "app_run (app_init None) [Mount, SaveClick] = Inr a" and "requests a \<noteq> []"
    by (simp add: run_simps)
  moreover have "app_reachable a"
    using app_run_reachable [OF app_reachable.init run] .
  ultimately show ?thesis
    using reachable_requests_valid [of a "hd (requests a)"] by auto
qed

text \<open>C5. Once mounted, the text stored under \<open>formData\<close> is always the JSON of the four current editable fields.\<close>

theorem reachable_storage_sync:
  assumes "app_reachable a" and "mounted a"
  shows "storage a = Some (persistDraft (form a))"
  using app_reachable_inv [OF assms(1)] assms(2) by (simp add: app_inv_def)

theorem reachable_storage_sync_witness:
  "\<exists>a. app_run (app_init (Some ''true'')) [Mount, LabelInput ''Region''] = Inr a
       \<and> app_reachable a \<and> mounted a \<and> storage a = Some (persistDraft (form a))"
proof -
  obtain a where run: "app_run (app_init (Some ''true'')) [Mount, LabelInput ''Region''] = Inr a"
    and m: "mounted a"
    by (simp add: run_simps json_parse_def is_json_ws_def draft_sets_def json_get_def)
  have r: "app_reachable a" using app_run_reachable [OF app_reachable.init run] .
  show ?thesis using reachable_storage_sync [OF r m] run r m by blast
qed

text \<open>C7. Reloading a mounted page never fails and gives exactly the state of a fresh page with nothing stored: the edits kept in the draft are lost.\<close>

theorem reload_is_fresh_mount:
  assumes "app_reachable a" and "mounted a"
  shows "mount (storage a) = mount None \<and> (\<exists>r. mount (storage a) = Inr r)"
proof -
  from app_reachable_inv [OF assms(1)] assms(2)
  have "storage a = Some (persistDraft (form a))" by (simp add: app_inv_def)
  then have "mount (storage a) = mount None"
    using loadDraft_persistDraft_eq by (simp add: mount_draft_irrelevant)
  with mount_None_Inr show ?thesis by simp
qed

theorem reload_is_fresh_mount_witness:
  "\<exists>a. app_run (app_init None) [Mount, LabelInput ''Region''] = Inr a
       \<and> app_reachable a \<and> mounted a \<and> label (form a) = ''Region''
       \<and> mount (storage a) = mount None \<and> (\<exists>r. mount (storage a) = Inr r)"
proof -
  obtain a where run: "app_run (app_init None) [Mount, LabelInput ''Region''] = Inr a"
    and m: "mounted a" and l: "label (form a) = ''Region''"
    by (simp add: run_simps)
  have r: "app_reachable a" using app_run_reachable [OF app_reachable.init run] .
  show ?thesis using reload_is_fresh_mount [OF r m] run r m l by blast
qed

text \<open>C13. On a mounted page, Cancel restores the four editable fields to the definition fetched from the service at mount and removes every message.\<close>

theorem cancel_restores_default:
  assumes "app_reachable a" and "mounted a" and "app_step a CancelClick = Inr a'"
  shows "form_fields (form a') = default_form_data \<and> validationErrors (form a') = []"
proof -
  from app_reachable_inv [OF assms(1)] assms(2)
  have i: "initialData (form a) = default_form_data" by (simp add: app_inv_def)
  from assms(2,3) have "form a' = apply_sets (form a) (cancelAndReset (form a))"
    by (auto simp: run_handler_def Let_def)
  with i show ?thesis
    by (simp add: cancelAndReset_def form_fields_validationErrors)
qed

theorem cancel_restores_default_witness:
  "\<exists>a a'. app_run (app_init None) [Mount, LabelInput ''Region''] = Inr a
       \<and> app_reachable a \<and> mounted a \<and> app_step a CancelClick = Inr a'
       \<and> label (form a) = ''Region''
       \<and> form_fields (form a') = default_form_data \<and> validationErrors (form a') = []"
proof -
  obtain a a' where run: "app_run (app_init None) [Mount, LabelInput ''Region''] = Inr a"
    and m: "mounted a" and l: "label (form a) = ''Region''"
    and c: "app_step a CancelClick = Inr a'"
    by (simp add: run_simps)
  have r: "app_reachable a" using app_run_reachable [OF app_reachable.init run] .
  show ?thesis using cancel_restores_default [OF r m c] run r m l c by blast
qed

text \<open>C14. When a save in flight settles, whatever the network's outcome, the loading flag is cleared, nothing else in the form changes and the save leaves the list of saves in flight.\<close>

theorem settle_clears_loading:
  assumes "app_step a (SaveSettled i out) = Inr a'"
  shows "form a' = (form a)\<lparr>isLoading := False\<rparr> \<and> Suc (length (pending a')) = length (pending a)
         \<and> storage a' = storage a \<and> requests a' = requests a"
proof -
  from assms have i: "i < length (pending a)" and a': "a' = settle_save a i out"
    by (auto split: if_splits)
  then show ?thesis
    by (simp add: settle_save_def run_handler_def Let_def commit_def form_fields_def)
qed

theorem settle_clears_loading_witness:
  "\<exists>a a'. app_run (app_init None) [Mount, ChoicesInput ''Asia'', SaveClick] = Inr a
       \<and> isLoading (form a) \<and> app_step a (SaveSettled 0 Fetch_rejected) = Inr a'
       \<and> \<not> isLoading (form a') \<and> pending a' = []"
proof -
  obtain a a' where run: "app_run (app_init None) [Mount, ChoicesInput ''Asia'', SaveClick] = Inr a"
    and l: "isLoading (form a)" and p: "length (pending a) = 1"
    and s: "app_step a (SaveSettled 0 Fetch_rejected) = Inr a'"
    by (simp add: run_simps)
  show ?thesis using settle_clears_loading [OF s] run l p s by auto
qed

text \<open>C15. On a mounted page with the loading flag set and no save in flight (an invalid submit), no sequence of events without a submit clears the flag: the button keeps reading Saving.\<close>

theorem loading_stuck_without_submit:
  assumes "mounted a" and "isLoading (form a)" and "pending a = []"
    and "SaveClick \<notin> set es" and "app_run a es = Inr a'"
  shows "isLoading (form a') \<and> pending a' = []"
  using assms
proof (induction es arbitrary: a)
  case Nil
  then show ?case by simp
next
  case (Cons e es)
  from Cons.prems(5) obtain b where b: "app_step a e = Inr b" and rest: "app_run b es = Inr a'"
    by (auto split: sum.splits)
  from Cons.prems(4) have "e \<noteq> SaveClick" by auto
  with Cons.prems(1-3) have "mounted b \<and> isLoading (form b) \<and> pending b = []"
    using app_step_keeps_loading [OF b] by simp
  with Cons.prems(4) rest show ?case by (intro Cons.IH) auto
qed

theorem loading_stuck_without_submit_witness:
  "\<exists>a a'. app_run (app_init None) [Mount, LabelInput [], SaveClick] = Inr a
       \<and> mounted a \<and> isLoading (form a) \<and> pending a = []
       \<and> SaveClick \<notin> set [ClearClick, LabelInput ''Region'', CancelClick]
       \<and> app_run a [ClearClick, LabelInput ''Region'', CancelClick] = Inr a'
       \<and> isLoading (form a') \<and> view_button (render (form a')) = ''Saving...''"
proof -
  obtain a a' where run: "app_run (app_init None) [Mount, LabelInput [], SaveClick] = Inr a"
    and m: "mounted a" and l: "isLoading (form a)" and p: "pending a = []"
    and run2: "app_run a [ClearClick, LabelInput ''Region'', CancelClick] = Inr a'"
    by (simp add: run_simps)
  have "isLoading (form a') \<and> pending a' = []"
    using loading_stuck_without_submit [OF m l p _ run2] by simp
  then show ?thesis using run m l p run2 by (auto simp: render_def submitButton_text_def)
qed

text \<open>C16. A submit of a valid form always sends a new request, even while the loading flag is set and other saves are in flight.\<close>

theorem submit_not_blocked:
  assumes "mounted a" and "validate_errors (label (form a)) (choices (form a)) = []"
  shows "\<exists>a'. app_step a SaveClick = Inr a'
           \<and> pending a' = pending a @ [submit_payload (form a)]
           \<and> requests a' = requests a @ [snd (saveField_call (submit_payload (form a)))]"
  using assms by (simp add: run_handler_def Let_def handleSubmit_eq)

theorem submit_not_blocked_witness:
  "\<exists>a. app_run (app_init None) [Mount, ChoicesInput ''Asia'', SaveClick] = Inr a
       \<and> isLoading (form a) \<and> pending a \<noteq> [] \<and> mounted a
       \<and> validate_errors (label (form a)) (choices (form a)) = []
       \<and> (\<exists>a'. app_step a SaveClick = Inr a' \<and> length (pending a') = 2)"
proof -
  obtain a where run: "app_run (app_init None) [Mount, ChoicesInput ''Asia'', SaveClick] = Inr a"
    and l: "isLoading (form a)" and p: "length (pending a) = 1" and m: "mounted a"
    and v: "validate_errors (label (form a)) (choices (form a)) = []"
    by (simp add: run_simps)
  show ?thesis using submit_not_blocked [OF m v] run l p m v by auto
qed

text \<open>C19. After a submit the page shows exactly the messages of that validation, in the code's order, and the button reads Saving except on the valid branch that does not append.\<close>

theorem render_after_submit:
  "view_errors (render (apply_sets s (fst (handleSubmit s)))) = validate_errors (label s) (choices s)
   \<and> view_button (render (apply_sets s (fst (handleSubmit s)))) =
       (if validate_errors (label s) (choices s) = [] \<and> js_includes (choices s) (defaultValue s)
        then ''Save changes'' else ''Saving...'')"
proof (cases "validate_errors (label s) (choices s) = []")
  case True
  then show ?thesis by (simp add: handleSubmit_eq render_def submitButton_text_def)
next
  case False
  have f: "filter (\<lambda>m. m \<in> set (validate_errors (label s) (choices s)))
          [msg_label_required, msg_duplicate_choices, msg_too_many_choices]
        = validate_errors (label s) (choices s)"
    by (rule filter_member_subseq [OF validate_errors_subseq]) simp
  from False show ?thesis
    by (simp add: handleSubmit_eq render_def submitButton_text_def f del: filter.simps)
qed

text \<open>C20. Selecting the order option the page shows keeps the display order, and the page shows the option matching the last selection.\<close>

theorem order_select_roundtrip:
  "displayAlpha (apply_sets s (onOrderChange (view_order (render s)))) = displayAlpha s
   \<and> view_order (render (apply_sets s (onOrderChange v))) =
       (if v = ''alphabetical'' then ''alphabetical'' else ''original'')"
  by (simp add: onOrderChange_def render_def)

text \<open>C21. When a valid submit appends a default value without newlines, the lines of the text become the old lines followed by the default value, still pairwise distinct.\<close>

theorem submit_append_adds_choice:
  assumes "validate_errors (label s) (choices s) = []"
    and "\<not> js_includes (choices s) (defaultValue s)" and "NL \<notin> set (defaultValue s)"
  shows "js_split NL (choices (apply_sets s (fst (handleSubmit s)))) = js_split NL (choices s) @ [defaultValue s]
         \<and> distinct (js_split NL (choices (apply_sets s (fst (handleSubmit s)))))"
proof -
  have split: "js_split NL (choices s @ NL # defaultValue s) = js_split NL (choices s) @ [defaultValue s]"
    using assms(3) by (simp add: js_split_append_sep js_split_no_sep)
  have "defaultValue s \<notin> set (js_split NL (choices s))"
    using assms(2) js_split_sublist js_includes_sublist by blast
  moreover have "distinct (js_split NL (choices s))"
    using assms(1) by (simp add: validate_errors_Nil_iff)
  ultimately show ?thesis
    using submit_append_choices [OF assms(1,2)] split by simp
qed

theorem submit_append_adds_choice_witness:
  "let s = initial_form_state\<lparr>label := ''Region'', choices := ''Asia'' @ NL # ''Europe'',
                              defaultValue := ''Africa''\<rparr>
   in validate_errors (label s) (choices s) = [] \<and> \<not> js_includes (choices s) (defaultValue s)
      \<and> NL \<notin> set (defaultValue s)
      \<and> js_split NL (choices (apply_sets s (fst (handleSubmit s)))) = [''Asia'', ''Europe'', ''Africa'']"
proof -
  let ?s = "initial_form_state\<lparr>label := ''Region'', choices := ''Asia'' @ NL # ''Europe'',
                               defaultValue := ''Africa''\<rparr>"
  have v: "validate_errors (label ?s) (choices ?s) = []"
    by (simp add: validate_errors_def js_set_size_def max_choices_def)
  have i: "\<not> js_includes (choices ?s) (defaultValue ?s)" by simp
  have n: "NL \<notin> set (defaultValue ?s)" by simp
  show ?thesis using submit_append_adds_choice [OF v i n] v i n by (simp add: Let_def)
qed

text \<open>C22. A valid submit with exactly fifty lines that appends the default value leaves a text that fails the next validation with the limit message.\<close>

theorem submit_append_exceeds_limit:
  assumes "validate_errors (label s) (choices s) = []"
    and "\<not> js_includes (choices s) (defaultValue s)" and "NL \<notin> set (defaultValue s)"
    and "length (js_split NL (choices s)) = 50"
  shows "validate_errors (label (apply_sets s (fst (handleSubmit s))))
           (choices (apply_sets s (fst (handleSubmit s)))) = [msg_too_many_choices]"
proof -
  let ?s' = "apply_sets s (fst (handleSubmit s))"
  have split: "js_split NL (choices ?s') = js_split NL (choices s) @ [defaultValue s]"
    using assms(3) submit_append_choices [OF assms(1,2)]
    by (simp add: js_split_append_sep js_split_no_sep)
  have "defaultValue s \<notin> set (js_split NL (choices s))"
    using assms(2) js_split_sublist js_includes_sublist by blast
  moreover have "distinct (js_split NL (choices s))" and "label s \<noteq> []"
    using assms(1) by (simp_all add: validate_errors_Nil_iff)
  ultimately show ?thesis
    using split assms(4) submit_append_choices [OF assms(1,2)]
    by (simp add: validate_errors_def js_set_size_distinct max_choices_def Let_def)
qed

theorem submit_append_exceeds_limit_witness:
  "let s = initial_form_state\<lparr>label := ''L'', choices := js_join NL
       [''q0'', ''q1'', ''q2'', ''q3'', ''q4'', ''q5'', ''q6'', ''q7'', ''q8'',
        ''q9'', ''w0'', ''w1'', ''w2'', ''w3'', ''w4'', ''w5'', ''w6'', ''w7'',
        ''w8'', ''w9'', ''e0'', ''e1'', ''e2'', ''e3'', ''e4'', ''e5'', ''e6'',
        ''e7'', ''e8'', ''e9'', ''r0'', ''r1'', ''r2'', ''r3'', ''r4'', ''r5'',
        ''r6'', ''r7'', ''r8'', ''r9'', ''t0'', ''t1'', ''t2'', ''t3'', ''t4'',
        ''t5'', ''t6'', ''t7'', ''t8'', ''t9''],
       defaultValue := ''zz''\<rparr>
   in validate_errors (label s) (choices s) = [] \<and> \<not> js_includes (choices s) (defaultValue s)
      \<and> NL \<notin> set (defaultValue s) \<and> length (js_split NL (choices s)) = 50
      \<and> validate_errors (label (apply_sets s (fst (handleSubmit s))))
           (choices (apply_sets s (fst (handleSubmit s)))) = [msg_too_many_choices]"
proof -
  let ?cs = "[''q0'', ''q1'', ''q2'', ''q3'', ''q4'', ''q5'', ''q6'', ''q7'', ''q8'',
        ''q9'', ''w0'', ''w1'', ''w2'', ''w3'', ''w4'', ''w5'', ''w6'', ''w7'',
        ''w8'', ''w9'', ''e0'', ''e1'', ''e2'', ''e3'', ''e4'', ''e5'', ''e6'',
        ''e7'', ''e8'', ''e9'', ''r0'', ''r1'', ''r2'', ''r3'', ''r4'', ''r5'',
        ''r6'', ''r7'', ''r8'', ''r9'', ''t0'', ''t1'', ''t2'', ''t3'', ''t4'',
        ''t5'', ''t6'', ''t7'', ''t8'', ''t9'']"
  let ?s = "initial_form_state\<lparr>label := ''L'', choices := js_join NL ?cs, defaultValue := ''zz''\<rparr>"
  have lines: "js_split NL (choices ?s) = ?cs"
  proof -
    have c: "choices ?s = js_join NL ?cs" by simp
    show ?thesis unfolding c by (rule js_split_join) simp_all
  qed
  have v: "validate_errors (label ?s) (choices ?s) = []"
    by (simp only: validate_errors_def lines Let_def) (simp add: js_set_size_def max_choices_def)
  have i: "\<not> js_includes (choices ?s) (defaultValue ?s)" by simp
  have n: "NL \<notin> set (defaultValue ?s)" by simp
  have l: "length (js_split NL (choices ?s)) = 50" by (simp only: lines) simp
  show ?thesis using submit_append_exceeds_limit [OF v i n l] v i n l by (simp add: Let_def)
qed

text \<open>C23. A submit changes the choices text exactly when the form is valid and the default value is not a contiguous substring of the text: the recursive \<open>includes\<close> search decides the library's \<open>sublist\<close>.\<close>

theorem submit_appends_iff_not_substring:
  "choices (apply_sets s (fst (handleSubmit s))) \<noteq> choices s \<longleftrightarrow>
     validate_errors (label s) (choices s) = [] \<and> \<not> sublist (defaultValue s) (choices s)"
  by (auto simp: handleSubmit_eq js_includes_sublist)

text \<open>C24. The append test is a substring test, not a test on the lines: after a valid
  submit of a default value without newlines, the default value is one of the lines of the
  choices text unless it occurs in the text only inside a longer line (or across lines),
  in which case it is neither appended nor a choice.\<close>

theorem submit_default_is_choice_iff:
  assumes "validate_errors (label s) (choices s) = []" and "NL \<notin> set (defaultValue s)"
  shows "defaultValue s \<in> set (js_split NL (choices (apply_sets s (fst (handleSubmit s)))))
         \<longleftrightarrow> \<not> (sublist (defaultValue s) (choices s)
                \<and> defaultValue s \<notin> set (js_split NL (choices s)))"
proof (cases "js_includes (choices s) (defaultValue s)")
  case True
  then have "choices (apply_sets s (fst (handleSubmit s))) = choices s"
    using assms(1) by (simp add: handleSubmit_eq)
  with True show ?thesis by (simp add: js_includes_sublist)
next
  case False
  then have "js_split NL (choices (apply_sets s (fst (handleSubmit s))))
             = js_split NL (choices s) @ [defaultValue s]"
    using assms(2) submit_append_choices [OF assms(1) False]
    by (simp add: js_split_append_sep js_split_no_sep)
  with False show ?thesis by (simp add: js_includes_sublist)
qed

theorem submit_default_is_choice_iff_witness:
  "let s = initial_form_state\<lparr>label := ''Region'', choices := ''Europe'', defaultValue := ''Eur''\<rparr>
   in validate_errors (label s) (choices s) = [] \<and> NL \<notin> set (defaultValue s)
      \<and> sublist (defaultValue s) (choices s)
      \<and> defaultValue s \<notin> set (js_split NL (choices (apply_sets s (fst (handleSubmit s)))))"
proof -
  let ?s = "initial_form_state\<lparr>label := ''Region'', choices := ''Europe'', defaultValue := ''Eur''\<rparr>"
  have v: "validate_errors (label ?s) (choices ?s) = []"
    by (simp add: validate_errors_def js_set_size_def max_choices_def)
  have n: "NL \<notin> set (defaultValue ?s)" by simp
  have sub: "sublist (defaultValue ?s) (choices ?s)"
    by (simp add: js_includes_sublist [symmetric])
  have "js_split NL (choices ?s) = [''Europe'']" by simp
  then show ?thesis
    using submit_default_is_choice_iff [OF v n] v n sub by (simp add: Let_def)
qed

text \<open>C25. On a mounted page Clear replaces the stored draft by the JSON of the empty fields.\<close>

theorem clear_overwrites_draft:
  assumes "app_reachable a" and "mounted a" and "app_step a ClearClick = Inr a'"
  shows "storage a' = Some (json_stringify (form_data_json empty_form_data))"
proof -
  have r': "app_reachable a'" using assms(1,3) by (rule app_reachable.step)
  from assms(2,3) have m': "mounted a'"
    and f: "form a' = apply_sets (form a) (clearForm (form a))"
    by (auto simp: run_handler_def Let_def)
  from app_reachable_inv [OF r'] m' have "storage a' = Some (persistDraft (form a'))"
    by (simp add: app_inv_def)
  with f show ?thesis
    by (simp add: persistDraft_def clearForm_def form_fields_def empty_form_data_def)
qed

theorem clear_overwrites_draft_witness:
  "\<exists>a a'. app_run (app_init None) [Mount] = Inr a \<and> app_reachable a \<and> mounted a
       \<and> label (form a) = ''Sales region'' \<and> app_step a ClearClick = Inr a'
       \<and> storage a' = Some (json_stringify (form_data_json empty_form_data))"
proof -
  obtain a a' where run: "app_run (app_init None) [Mount] = Inr a"
    and m: "mounted a" and l: "label (form a) = ''Sales region''"
    and c: "app_step a ClearClick = Inr a'"
    by (simp add: run_simps)
  have r: "app_reachable a" using app_run_reachable [OF app_reachable.init run] .
  show ?thesis using clear_overwrites_draft [OF r m c] run r m l c by blast
qed

text \<open>C28. The multi-select checkbox labelled "A value is required" has no effect on the
  program: removing every toggle of it from a run that succeeds gives the same page, the
  checkbox's own state aside (the same fields, messages, stored draft, saves and requests).\<close>

theorem multiSelect_no_effect:
  "app_run a es = Inr b \<Longrightarrow>
     app_run a (filter (\<lambda>e. e \<noteq> MultiSelectToggle) es) = Inr (b\<lparr>multiSelect := multiSelect a\<rparr>)"
proof (induction es arbitrary: a)
  case Nil
  then show ?case by simp
next
  case (Cons e es)
  from Cons.prems obtain a1 where s: "app_step a e = Inr a1" and r: "app_run a1 es = Inr b"
    by (auto split: sum.splits)
  have IH: "app_run a1 (filter (\<lambda>e. e \<noteq> MultiSelectToggle) es) = Inr (b\<lparr>multiSelect := multiSelect a1\<rparr>)"
    using Cons.IH [OF r] .
  have nt: "MultiSelectToggle \<notin> set (filter (\<lambda>e. e \<noteq> MultiSelectToggle) es)"
    by simp
  show ?case
  proof (cases "e = MultiSelectToggle")
    case True
    then have "a1 = a\<lparr>multiSelect := \<not> multiSelect a\<rparr>"
      using s by (simp split: if_splits)
    then have "a = a1\<lparr>multiSelect := multiSelect a\<rparr>"
      by simp
    then have "app_run a (filter (\<lambda>e. e \<noteq> MultiSelectToggle) es) =
                 map_sum id (\<lambda>c. c\<lparr>multiSelect := multiSelect a\<rparr>)
                   (app_run a1 (filter (\<lambda>e. e \<noteq> MultiSelectToggle) es))"
      using app_run_multiSelect_frame [OF nt, of "multiSelect a" a1] by simp
    with IH True show ?thesis
      by simp
  next
    case False
    have "app_step (a\<lparr>multiSelect := multiSelect a\<rparr>) e =
            map_sum id (\<lambda>c. c\<lparr>multiSelect := multiSelect a\<rparr>) (app_step a e)"
      using False by (rule app_step_multiSelect_frame)
    with s have eq: "a1 = a1\<lparr>multiSelect := multiSelect a\<rparr>"
      by simp
    have "multiSelect a1 = multiSelect a"
      by (subst eq) simp
    with s IH False show ?thesis
      by simp
  qed
qed

theorem multiSelect_no_effect_witness:
  "\<exists>b. app_run (app_init None) [Mount, MultiSelectToggle, ChoicesInput ''Asia'', SaveClick] = Inr b
       \<and> multiSelect b \<and> requests b \<noteq> []
       \<and> app_run (app_init None) [Mount, ChoicesInput ''Asia'', SaveClick] = Inr (b\<lparr>multiSelect := False\<rparr>)"
proof -
  obtain b where run: "app_run (app_init None) [Mount, MultiSelectToggle, ChoicesInput ''Asia'', SaveClick] = Inr b"
    and m: "multiSelect b" and q: "requests b \<noteq> []"
    by (simp add: run_simps)
  have "app_run (app_init None) (filter (\<lambda>e. e \<noteq> MultiSelectToggle)
          [Mount, MultiSelectToggle, ChoicesInput ''Asia'', SaveClick]) =
        Inr (b\<lparr>multiSelect := multiSelect (app_init None)\<rparr>)"
    using multiSelect_no_effect [OF run] .
  then show ?thesis
    using run m q by (simp add: app_init_def)
qed

text \<open>C30. The console of a reachable page holds two lines for every call of
  \<open>saveField\<close> and one for every settled save: the saves in flight are among the
  requests sent, and the rest of the requests have each logged their outcome once.\<close>

theorem reachable_console_count:
  assumes "app_reachable a"
  shows "length (pending a) \<le> length (requests a)
         \<and> length (console a) + length (pending a) = 3 * length (requests a)"
  using assms
proof (induction rule: app_reachable.induct)
  case (init saved)
  then show ?case by (simp add: app_init_def)
next
  case (step a e a')
  then show ?case
    using app_step_console [of a e a'] by blast
qed

theorem reachable_console_count_witness:
  "\<exists>a. app_run (app_init None) [Mount, SaveClick, SaveClick, SaveSettled 0 Fetch_rejected] = Inr a
       \<and> app_reachable a \<and> length (requests a) = 2 \<and> length (pending a) = 1
       \<and> length (console a) = 5"
proof -
  obtain a where run: "app_run (app_init None) [Mount, SaveClick, SaveClick, SaveSettled 0 Fetch_rejected] = Inr a"
    and q: "length (requests a) = 2" and p: "length (pending a) = 1"
    by (simp add: run_simps)
  have r: "app_reachable a"
    using app_run_reachable [OF app_reachable.init run] .
  show ?thesis
    using reachable_console_count [OF r] run r q p by simp
qed

text \<open>C31. The loading flag can always be cleared: from any mounted page, settling the
  saves in flight, then Cancel, Save and the settling of that save leave the page with
  no save in flight and the button reading Save changes, even after an invalid submit
  has left the flag set.\<close>

theorem loading_recoverable:
  assumes "app_reachable a" and "mounted a"
  shows "\<exists>b. app_run a (replicate (length (pending a)) (SaveSettled 0 Fetch_rejected)
                         @ [CancelClick, SaveClick, SaveSettled 0 Fetch_rejected]) = Inr b
             \<and> \<not> isLoading (form b) \<and> pending b = []"
proof -
  obtain b1 where r1: "app_run a (replicate (length (pending a)) (SaveSettled 0 Fetch_rejected)) = Inr b1"
    and m1: "mounted b1" and p1: "pending b1 = []" and i1: "initialData (form b1) = initialData (form a)"
    using settle_all [OF assms(2), of "length (pending a)" Fetch_rejected] by blast
  have "initialData (form a) = default_form_data"
    using app_reachable_inv [OF assms(1)] assms(2) by (simp add: app_inv_def)
  with i1 have i: "initialData (form b1) = default_form_data"
    by simp
  let ?b2 = "run_handler b1 (cancelAndReset (form b1), [])"
  have c: "app_step b1 CancelClick = Inr ?b2"
    using m1 by simp
  have f2: "label (form ?b2) = data_label default_form_data"
    "choices (form ?b2) = data_choices default_form_data"
    "defaultValue (form ?b2) = data_defaultValue default_form_data"
    and m2: "mounted ?b2" and p2: "pending ?b2 = []"
    using i m1 p1 by (simp_all add: run_handler_def Let_def handler_simps)
  let ?b3 = "run_handler ?b2 (handleSubmit (form ?b2))"
  have s: "app_step ?b2 SaveClick = Inr ?b3"
    using m2 by simp
  have "\<not> isLoading (form ?b3)" and p3: "length (pending ?b3) = 1" and m3: "mounted ?b3"
    using default_form_data_valid f2 m2 p2
    by (simp_all add: run_handler_def Let_def handleSubmit_eq)
  then have "app_step ?b3 (SaveSettled 0 Fetch_rejected) = Inr (settle_save ?b3 0 Fetch_rejected)"
    and "\<not> isLoading (form (settle_save ?b3 0 Fetch_rejected))"
    and "pending (settle_save ?b3 0 Fetch_rejected) = []"
    by (simp_all add: settle_save_def run_handler_def Let_def)
  with r1 c s show ?thesis
    by (auto simp: app_run_append)
qed

theorem loading_recoverable_witness:
  "\<exists>a b. app_run (app_init None) [Mount, LabelInput [], SaveClick] = Inr a
         \<and> app_reachable a \<and> mounted a \<and> isLoading (form a) \<and> pending a = []
         \<and> app_run a [CancelClick, SaveClick, SaveSettled 0 Fetch_rejected] = Inr b
         \<and> \<not> isLoading (form b) \<and> pending b = []"
proof -
  obtain a where run: "app_run (app_init None) [Mount, LabelInput [], SaveClick] = Inr a"
    and m: "mounted a" and l: "isLoading (form a)" and p: "pending a = []"
    by (simp add: run_simps)
  have r: "app_reachable a"
    using app_run_reachable [OF app_reachable.init run] .
  show ?thesis
    using loading_recoverable [OF r m] run r m l p by simp
qed

end
